theory Spec2Isabelle
  imports Main "HOL-Library.AList"
begin

section \<open>Data model\<close>

text \<open>
  The server keeps one JSON document, \<^verbatim>\<open>data.json\<close>, with three collections. Every field
  the handlers store is a string; \<^verbatim>\<open>rollNumber\<close> and \<^verbatim>\<open>reason\<close> are stored as \<^verbatim>\<open>null\<close> when
  the request leaves them out, and \<^verbatim>\<open>createdAt\<close> is the one stored field whose absence the
  source tests for (line 119), so these three are optional. A stored document always has
  its three collections, as have the document the server creates (lines 60-64) and the one
  \<^verbatim>\<open>readData\<close> falls back to (line 78).
\<close>

record class_rec =
  class_id :: string
  class_name :: string
  createdAt :: "string option"
  class_updatedAt :: string

record student =
  student_id :: string
  student_name :: string
  rollNumber :: "string option"
  student_className :: string
  student_updatedAt :: string

record attendance_rec =
  att_id :: string
  studentId :: string
  studentName :: string
  att_className :: string
  prayer :: string
  date :: string
  status :: string
  reason :: "string option"
  timestamp :: string
  att_updatedAt :: string

record document =
  classes :: "class_rec list"
  students :: "student list"
  attendance :: "attendance_rec list"

definition initialData :: document where
  "initialData = \<lparr>classes = [], students = [], attendance = []\<rparr>"

text \<open>
  A field of a request body or of a query string may be missing. JavaScript's \<^verbatim>\<open>!x\<close> is
  true for a missing value and for the empty string.
\<close>

fun truthy :: "string option \<Rightarrow> bool" where
  "truthy None = False"
| "truthy (Some s) = (s \<noteq> [])"

text \<open>The string behind a field that has passed the \<^verbatim>\<open>truthy\<close> test.\<close>

fun str :: "string option \<Rightarrow> string" where
  "str None = []"
| "str (Some s) = s"

record class_body =
  b_id :: "string option"
  b_name :: "string option"

record student_body =
  sb_id :: "string option"
  sb_name :: "string option"
  sb_rollNumber :: "string option"
  sb_className :: "string option"

record attendance_body =
  ab_id :: "string option"
  ab_studentId :: "string option"
  ab_studentName :: "string option"
  ab_className :: "string option"
  ab_prayer :: "string option"
  ab_date :: "string option"
  ab_status :: "string option"
  ab_reason :: "string option"
  ab_timestamp :: "string option"

section \<open>Messages, responses and the world\<close>

datatype jdata =
    ClassData class_rec
  | StudentData student
  | AttendanceData attendance_rec
  | IdData string
  | Undefined

datatype message =
    Change string jdata string
  | Connected

datatype response =
    Json jdata
  | Success
  | Failure nat string

text \<open>
  What a handler does to its surroundings is recorded in a trace: the write of the initial
  file by \<^verbatim>\<open>ensureDataFile\<close>, each call of \<^verbatim>\<open>writeData\<close> with the document passed and
  whether \<^verbatim>\<open>fs.writeFileSync\<close> succeeded, each \<^verbatim>\<open>JSON.stringify\<close> of a message and each
  \<^verbatim>\<open>client.send\<close>.
\<close>

datatype effect =
    EnsureWrite bool
  | WriteData document bool
  | Stringify message
  | Send nat string

datatype file_state = Missing | Unreadable | Stored document

record client =
  handle :: nat
  readyState :: nat

record world =
  disk :: file_state
  clients :: "client list"
  trace :: "effect list"

text \<open>
  What a request cannot decide itself: the results of the first and the second call of
  \<^verbatim>\<open>new Date().toISOString()\<close>, whether the two file writes succeed, and the serializer
  \<^verbatim>\<open>JSON.stringify\<close>, which is not part of the source. \<^verbatim>\<open>fs.writeFileSync\<close> opens the
  file with flag \<^verbatim>\<open>w\<close>, which truncates it: a write that fails before the file is opened
  leaves it as it was, and one that fails later leaves a torn file, which no later
  \<^verbatim>\<open>JSON.parse\<close> accepts. The two \<open>torn\<close> flags say which of the two a failing write is.
\<close>

record env =
  now1 :: string
  now2 :: string
  init_write_ok :: bool
  write_ok :: bool
  init_write_torn :: bool
  write_torn :: bool
  stringify :: "message \<Rightarrow> string"

section \<open>The document store\<close>

definition log :: "effect \<Rightarrow> world \<Rightarrow> world" where
  "log e w = w\<lparr>trace := trace w @ [e]\<rparr>"

text \<open>
  \<^verbatim>\<open>ensureDataFile\<close> (lines 58-68) creates a missing file with the initial document.
  The flag returned is false when \<^verbatim>\<open>fs.writeFileSync\<close> has raised.
\<close>

definition ensureDataFile :: "env \<Rightarrow> world \<Rightarrow> bool \<times> world" where
  "ensureDataFile e w =
     (case disk w of
        Missing \<Rightarrow>
          (if init_write_ok e
           then (True, log (EnsureWrite True) (w\<lparr>disk := Stored initialData\<rparr>))
           else if init_write_torn e
           then (False, log (EnsureWrite False) (w\<lparr>disk := Unreadable\<rparr>))
           else (False, log (EnsureWrite False) w))
      | _ \<Rightarrow> (True, w))"

text \<open>
  \<^verbatim>\<open>readData\<close> (lines 71-80) calls \<^verbatim>\<open>ensureDataFile\<close> inside its \<^verbatim>\<open>try\<close>: every
  exception, that of a failed creation and that of a file which cannot be read or parsed,
  ends in the initial document being returned.
\<close>

definition readData :: "env \<Rightarrow> world \<Rightarrow> document \<times> world" where
  "readData e w =
     (let (created, w1) = ensureDataFile e w
      in if created
         then (case disk w1 of
                 Stored d \<Rightarrow> (d, w1)
               | _ \<Rightarrow> (initialData, w1))
         else (initialData, w1))"

text \<open>\<^verbatim>\<open>writeData\<close> (lines 83-91) swallows the exception and returns a flag.\<close>

definition writeData :: "env \<Rightarrow> document \<Rightarrow> world \<Rightarrow> bool \<times> world" where
  "writeData e d w =
     (if write_ok e
      then (True, log (WriteData d True) (w\<lparr>disk := Stored d\<rparr>))
      else if write_torn e
      then (False, log (WriteData d False) (w\<lparr>disk := Unreadable\<rparr>))
      else (False, log (WriteData d False) w))"

section \<open>Subscribers and broadcast\<close>

text \<open>
  \<^verbatim>\<open>client.send\<close> belongs to the \<^verbatim>\<open>ws\<close> library: on an open socket it queues the frame
  and reports a transport error later through the socket's \<^verbatim>\<open>error\<close> event.
\<close>

definition send :: "client \<Rightarrow> string \<Rightarrow> world \<Rightarrow> world" where
  "send c data w = log (Send (handle c) data) w"

fun forEach :: "('a \<Rightarrow> world \<Rightarrow> world) \<Rightarrow> 'a list \<Rightarrow> world \<Rightarrow> world" where
  "forEach f [] w = w"
| "forEach f (x # xs) w = forEach f xs (f x w)"

definition broadcast :: "env \<Rightarrow> message \<Rightarrow> world \<Rightarrow> world" where
  "broadcast e message w =
     (let data = stringify e message
      in forEach (\<lambda>c w'. if readyState c = 1 then send c data w' else w')
           (clients w) (log (Stringify message) w))"

text \<open>The connection handler (lines 36-51): register, greet; unregister on close; log on error.\<close>

definition on_connection :: "env \<Rightarrow> client \<Rightarrow> world \<Rightarrow> world" where
  "on_connection e ws w =
     (let w1 = (if handle ws \<in> set (map handle (clients w)) then w
                else w\<lparr>clients := clients w @ [ws]\<rparr>)
      in send ws (stringify e Connected) (log (Stringify Connected) w1))"

definition on_close :: "nat \<Rightarrow> world \<Rightarrow> world" where
  "on_close h w = w\<lparr>clients := filter (\<lambda>c. handle c \<noteq> h) (clients w)\<rparr>"

definition on_error :: "nat \<Rightarrow> world \<Rightarrow> world" where
  "on_error h w = w"

section \<open>Classes\<close>

fun findIndex :: "('a \<Rightarrow> bool) \<Rightarrow> 'a list \<Rightarrow> nat option" where
  "findIndex P [] = None"
| "findIndex P (x # xs) = (if P x then Some 0 else map_option Suc (findIndex P xs))"

definition found :: "'a option \<Rightarrow> ('a \<Rightarrow> jdata) \<Rightarrow> jdata" where
  "found r wrap = (case r of None \<Rightarrow> Undefined | Some x \<Rightarrow> wrap x)"

definition action_of :: "nat option \<Rightarrow> string" where
  "action_of existingIndex = (case existingIndex of Some _ \<Rightarrow> ''updated'' | None \<Rightarrow> ''created'')"

text \<open>Lines 116-123: the change \<^verbatim>\<open>POST /api/classes\<close> makes to the loaded document.\<close>

definition upsertClass :: "env \<Rightarrow> string \<Rightarrow> string \<Rightarrow> document \<Rightarrow> document" where
  "upsertClass e i n data =
     (case findIndex (\<lambda>c. class_id c = i) (classes data) of
        Some k \<Rightarrow>
          data\<lparr>classes := (classes data)[k :=
            (if truthy (createdAt (classes data ! k))
             then \<lparr>class_id = i, class_name = n,
                   createdAt = createdAt (classes data ! k), class_updatedAt = now1 e\<rparr>
             else \<lparr>class_id = i, class_name = n,
                   createdAt = Some (now1 e), class_updatedAt = now2 e\<rparr>)]\<rparr>
      | None \<Rightarrow>
          data\<lparr>classes := classes data @
            [\<lparr>class_id = i, class_name = n,
              createdAt = Some (now1 e), class_updatedAt = now2 e\<rparr>]\<rparr>)"

definition post_classes :: "env \<Rightarrow> class_body \<Rightarrow> world \<Rightarrow> response \<times> world" where
  "post_classes e body w =
     (let (data, w1) = readData e w
      in if \<not> truthy (b_id body) \<or> \<not> truthy (b_name body)
         then (Failure 400 ''id and name are required'', w1)
         else
           let i = str (b_id body); n = str (b_name body);
               existingIndex = findIndex (\<lambda>c. class_id c = i) (classes data);
               data' = upsertClass e i n data;
               (_, w2) = writeData e data' w1;
               newClass = found (find (\<lambda>c. class_id c = i) (classes data')) ClassData;
               w3 = broadcast e (Change ''class_updated'' newClass (action_of existingIndex)) w2
           in (Json newClass, w3))"

text \<open>Lines 143-148: the change \<^verbatim>\<open>DELETE /api/classes/:id\<close> makes to the loaded document.\<close>

definition deleteClass :: "string \<Rightarrow> document \<Rightarrow> document" where
  "deleteClass i data =
     (let classToDelete = find (\<lambda>c. class_id c = i) (classes data);
          data1 = data\<lparr>classes := filter (\<lambda>c. class_id c \<noteq> i) (classes data)\<rparr>
      in case classToDelete of
           Some c \<Rightarrow> data1\<lparr>students :=
                       filter (\<lambda>s. student_className s \<noteq> class_name c) (students data1)\<rparr>
         | None \<Rightarrow> data1)"

definition delete_classes :: "env \<Rightarrow> string \<Rightarrow> world \<Rightarrow> response \<times> world" where
  "delete_classes e i w =
     (let (data, w1) = readData e w;
          (_, w2) = writeData e (deleteClass i data) w1;
          w3 = broadcast e (Change ''class_deleted'' (IdData i) ''deleted'') w2
      in (Success, w3))"

section \<open>Students\<close>

definition orNull :: "string option \<Rightarrow> string option" where
  "orNull x = (if truthy x then x else None)"

text \<open>Lines 196-203: the change \<^verbatim>\<open>POST /api/students\<close> makes to the loaded document.\<close>

definition upsertStudent ::
  "env \<Rightarrow> string \<Rightarrow> string \<Rightarrow> string option \<Rightarrow> string \<Rightarrow> document \<Rightarrow> document" where
  "upsertStudent e i n r cn data =
     (let new = \<lparr>student_id = i, student_name = n, rollNumber = orNull r,
                 student_className = cn, student_updatedAt = now1 e\<rparr>
      in case findIndex (\<lambda>s. student_id s = i) (students data) of
           Some k \<Rightarrow> data\<lparr>students := (students data)[k := new]\<rparr>
         | None \<Rightarrow> data\<lparr>students := students data @ [new]\<rparr>)"

definition post_students :: "env \<Rightarrow> student_body \<Rightarrow> world \<Rightarrow> response \<times> world" where
  "post_students e body w =
     (let (data, w1) = readData e w
      in if \<not> truthy (sb_id body) \<or> \<not> truthy (sb_name body) \<or> \<not> truthy (sb_className body)
         then (Failure 400 ''id, name, and className are required'', w1)
         else
           let i = str (sb_id body);
               existingIndex = findIndex (\<lambda>s. student_id s = i) (students data);
               data' = upsertStudent e i (str (sb_name body)) (sb_rollNumber body)
                         (str (sb_className body)) data;
               (_, w2) = writeData e data' w1;
               newStudent = found (find (\<lambda>s. student_id s = i) (students data')) StudentData;
               w3 = broadcast e
                      (Change ''student_updated'' newStudent (action_of existingIndex)) w2
           in (Json newStudent, w3))"

text \<open>Lines 223-225: the change \<^verbatim>\<open>DELETE /api/students/:id\<close> makes to the loaded document.\<close>

definition deleteStudent :: "string \<Rightarrow> document \<Rightarrow> document" where
  "deleteStudent i data =
     data\<lparr>students := filter (\<lambda>s. student_id s \<noteq> i) (students data),
          attendance := filter (\<lambda>a. studentId a \<noteq> i) (attendance data)\<rparr>"

definition delete_students :: "env \<Rightarrow> string \<Rightarrow> world \<Rightarrow> response \<times> world" where
  "delete_students e i w =
     (let (data, w1) = readData e w;
          (_, w2) = writeData e (deleteStudent i data) w1;
          w3 = broadcast e (Change ''student_deleted'' (IdData i) ''deleted'') w2
      in (Success, w3))"

section \<open>Attendance\<close>

text \<open>
  Lines 285-314. The record literal is evaluated field by field, so \<^verbatim>\<open>updatedAt\<close> gets the
  second clock reading exactly when \<^verbatim>\<open>timestamp\<close> has used the first.
\<close>

definition upsertAttendance :: "env \<Rightarrow> attendance_body \<Rightarrow> document \<Rightarrow> document" where
  "upsertAttendance e body data =
     (let new = \<lparr>att_id = str (ab_id body), studentId = str (ab_studentId body),
                 studentName = str (ab_studentName body),
                 att_className = str (ab_className body),
                 prayer = str (ab_prayer body), date = str (ab_date body),
                 status = str (ab_status body), reason = orNull (ab_reason body),
                 timestamp = (if truthy (ab_timestamp body) then str (ab_timestamp body)
                              else now1 e),
                 att_updatedAt = (if truthy (ab_timestamp body) then now1 e else now2 e)\<rparr>
      in case findIndex (\<lambda>a. att_id a = str (ab_id body)) (attendance data) of
           Some k \<Rightarrow> data\<lparr>attendance := (attendance data)[k := new]\<rparr>
         | None \<Rightarrow> data\<lparr>attendance := attendance data @ [new]\<rparr>)"

definition post_attendance :: "env \<Rightarrow> attendance_body \<Rightarrow> world \<Rightarrow> response \<times> world" where
  "post_attendance e body w =
     (let (data, w1) = readData e w
      in if \<not> truthy (ab_id body) \<or> \<not> truthy (ab_studentId body)
            \<or> \<not> truthy (ab_studentName body) \<or> \<not> truthy (ab_className body)
            \<or> \<not> truthy (ab_prayer body) \<or> \<not> truthy (ab_date body)
            \<or> \<not> truthy (ab_status body)
         then (Failure 400
                 ''id, studentId, studentName, className, prayer, date, and status are required'',
               w1)
         else
           let i = str (ab_id body);
               existingIndex = findIndex (\<lambda>a. att_id a = i) (attendance data);
               data' = upsertAttendance e body data;
               (_, w2) = writeData e data' w1;
               attendanceRecord =
                 found (find (\<lambda>a. att_id a = i) (attendance data')) AttendanceData;
               w3 = broadcast e
                      (Change ''attendance_updated'' attendanceRecord (action_of existingIndex))
                      w2
           in (Json attendanceRecord, w3))"

definition deleteAttendance :: "string \<Rightarrow> document \<Rightarrow> document" where
  "deleteAttendance i data =
     data\<lparr>attendance := filter (\<lambda>a. att_id a \<noteq> i) (attendance data)\<rparr>"

definition delete_attendance :: "env \<Rightarrow> string \<Rightarrow> world \<Rightarrow> response \<times> world" where
  "delete_attendance e i w =
     (let (data, w1) = readData e w;
          (_, w2) = writeData e (deleteAttendance i data) w1;
          w3 = broadcast e (Change ''attendance_deleted'' (IdData i) ''deleted'') w2
      in (Success, w3))"

section \<open>Requests\<close>

text \<open>
  The six mutating routes. Each wraps its body in \<^verbatim>\<open>try\<close> and answers status 500 from
  the \<^verbatim>\<open>catch\<close>; on documents and bodies of the types above no statement of a body
  raises (\<^verbatim>\<open>readData\<close> and \<^verbatim>\<open>writeData\<close> catch their own exceptions), so the routes
  have no such outcome here.
\<close>

datatype request =
    PostClass class_body
  | DeleteClass string
  | PostStudent student_body
  | DeleteStudent string
  | PostAttendance attendance_body
  | DeleteAttendance string

fun handle_request :: "env \<Rightarrow> request \<Rightarrow> world \<Rightarrow> response \<times> world" where
  "handle_request e (PostClass body) w = post_classes e body w"
| "handle_request e (DeleteClass i) w = delete_classes e i w"
| "handle_request e (PostStudent body) w = post_students e body w"
| "handle_request e (DeleteStudent i) w = delete_students e i w"
| "handle_request e (PostAttendance body) w = post_attendance e body w"
| "handle_request e (DeleteAttendance i) w = delete_attendance e i w"

text \<open>The read-only routes of classes and students (lines 96-103, 164-171).\<close>

definition get_classes :: "env \<Rightarrow> world \<Rightarrow> class_rec list \<times> world" where
  "get_classes e w = (let (data, w1) = readData e w in (classes data, w1))"

definition get_students :: "env \<Rightarrow> world \<Rightarrow> student list \<times> world" where
  "get_students e w = (let (data, w1) = readData e w in (students data, w1))"

section \<open>Summary\<close>

text \<open>
  \<^verbatim>\<open>GET /api/summary\<close> (lines 353-384) groups into plain JavaScript objects. An object
  is modelled by its own properties in the order in which they are enumerated, which is the
  order of the keys in the response: keys that are array indices (canonical decimal
  numerals below \<open>2\<^sup>3\<^sup>2 - 1\<close>) come first, in ascending numeric order, and the remaining
  keys follow in the order of their creation.
\<close>

type_synonym 'v obj = "(string \<times> 'v) list"

definition digit_value :: "char \<Rightarrow> nat option" where
  "digit_value c =
     map_of [(CHR ''0'', 0), (CHR ''1'', 1), (CHR ''2'', 2), (CHR ''3'', 3), (CHR ''4'', 4),
             (CHR ''5'', 5), (CHR ''6'', 6), (CHR ''7'', 7), (CHR ''8'', 8), (CHR ''9'', 9)] c"

fun decimal :: "nat \<Rightarrow> string \<Rightarrow> nat option" where
  "decimal acc [] = Some acc"
| "decimal acc (c # cs) =
     (case digit_value c of None \<Rightarrow> None | Some v \<Rightarrow> decimal (10 * acc + v) cs)"

definition max_length :: nat where
  "max_length = 4294967295"

definition array_index :: "string \<Rightarrow> nat option" where
  "array_index k =
     (case k of
        [] \<Rightarrow> None
      | c # cs \<Rightarrow>
          (if c = CHR ''0'' \<and> cs \<noteq> [] then None
           else case decimal 0 k of
                  None \<Rightarrow> None
                | Some v \<Rightarrow> if v < max_length then Some v else None))"

fun put_new :: "string \<Rightarrow> 'v \<Rightarrow> 'v obj \<Rightarrow> 'v obj" where
  "put_new k v [] = [(k, v)]"
| "put_new k v ((k', v') # ps) =
     (case array_index k of
        None \<Rightarrow> (k', v') # put_new k v ps
      | Some n \<Rightarrow>
          (case array_index k' of
             None \<Rightarrow> (k, v) # (k', v') # ps
           | Some n' \<Rightarrow> if n < n' then (k, v) # (k', v') # ps
                        else (k', v') # put_new k v ps))"

fun set_own :: "string \<Rightarrow> 'v \<Rightarrow> 'v obj \<Rightarrow> 'v obj" where
  "set_own k v [] = []"
| "set_own k v ((k', v') # ps) =
     (if k' = k then (k', v) # ps else (k', v') # set_own k v ps)"

text \<open>
  The two objects the route creates, \<^verbatim>\<open>summary\<close> and \<^verbatim>\<open>summary[record.date]\<close>, inherit
  from \<^verbatim>\<open>Object.prototype\<close>, and lines 371-377 read and write them under keys taken from
  the records. A key that is not an own property is therefore looked up on the built-in
  objects, where it can find one of the twelve names every \<^verbatim>\<open>Object.prototype\<close> has, or an
  array that an earlier record, of this request or of an earlier one, has left there: the
  built-in objects live as long as the process, so what the route stores on them is state,
  like the file and the registry.

  That state is the \<open>realm\<close>: the arrays that have been added to \<^verbatim>\<open>Object.prototype\<close>, the
  arrays that have been added to the functions \<^verbatim>\<open>Object.prototype\<close> holds (keyed by the
  name of the function there and the name of the property), and what has been added to
  \<^verbatim>\<open>Array.prototype\<close>. An array that serves as \<^verbatim>\<open>summary[record.date]\<close> can hold records
  (pushed) and arrays of records (assigned under an index or under another name); the
  other arrays only ever receive records. Arrays of the realm are not enumerated by the
  source, so the order of their properties is of no account.

  The realm reaches the other routes in one place. \<^verbatim>\<open>req.body\<close> is a plain object, so a
  field that a body lacks is read from \<^verbatim>\<open>Object.prototype\<close> when a summary has left an
  array of that name there (lines 108, 189 and 278), and the check of the required fields
  then lets the body pass. The models of the mutating routes read the fields a body has:
  they describe those routes as long as no field that the body lacks is \<open>visible\<close> in the
  realm, which in the \<open>pristine\<close> realm is so for every body.
\<close>

datatype cell = Item attendance_rec | Inner "attendance_rec list"

record jarray =
  arr_length :: nat
  elements :: "(nat \<times> cell) list"
  named :: "(string \<times> cell) list"

record realm =
  object_prototype :: "(string \<times> jarray) list"
  function_props :: "((string \<times> string) \<times> attendance_rec list) list"
  array_prototype :: jarray

definition pristine :: realm where
  "pristine = \<lparr>object_prototype = [], function_props = [],
                array_prototype = \<lparr>arr_length = 0, elements = [], named = []\<rparr>\<rparr>"

text \<open>
  What the source leaves to the engine and to Express: whether \<^verbatim>\<open>req.query\<close> inherits from
  \<^verbatim>\<open>Object.prototype\<close> (it does with the \<^verbatim>\<open>qs\<close> parser, it does not with Node's
  \<^verbatim>\<open>querystring\<close>); which names the function that \<^verbatim>\<open>Object.prototype\<close> holds under a
  given name has from the start, itself or through \<^verbatim>\<open>Function.prototype\<close> (such as
  \<^verbatim>\<open>length\<close>, \<^verbatim>\<open>name\<close>, \<^verbatim>\<open>call\<close>, and \<^verbatim>\<open>keys\<close> for \<^verbatim>\<open>constructor\<close>); and which names
  \<^verbatim>\<open>Array.prototype\<close> has from the start (such as \<^verbatim>\<open>push\<close> and \<^verbatim>\<open>constructor\<close>). None of
  these built-in properties holds an object with a method \<^verbatim>\<open>push\<close>, and none that holds a
  falsy value can be assigned an array (the source is a module, hence strict code), so
  lines 374-377 raise a \<^verbatim>\<open>TypeError\<close> on each of them.
\<close>

record engine =
  query_inherits :: bool
  function_has :: "string \<Rightarrow> string \<Rightarrow> bool"
  array_has :: "string \<Rightarrow> bool"

definition inherited :: "string \<Rightarrow> bool" where
  "inherited k = (k \<in> set
     [''constructor'', ''__proto__'', ''hasOwnProperty'', ''isPrototypeOf'',
      ''propertyIsEnumerable'', ''toLocaleString'', ''toString'', ''valueOf'',
      ''__defineGetter__'', ''__defineSetter__'', ''__lookupGetter__'',
      ''__lookupSetter__''])"

definition visible :: "realm \<Rightarrow> string \<Rightarrow> bool" where
  "visible R k = (inherited k \<or> map_of (object_prototype R) k \<noteq> None)"

text \<open>
  \<^verbatim>\<open>const { date, className } = req.query\<close> (line 356, and line 244 of
  \<^verbatim>\<open>GET /api/attendance\<close>): a parameter the request does not give is read through the
  prototype of \<^verbatim>\<open>req.query\<close>, where it can find an array; an array is truthy and is
  \<^verbatim>\<open>===\<close> to no string, so that filter keeps nothing.
\<close>

datatype query_value = Absent | Given string | Foreign

definition query_field :: "engine \<Rightarrow> realm \<Rightarrow> string \<Rightarrow> string option \<Rightarrow> query_value" where
  "query_field eng R name q =
     (case q of
        Some s \<Rightarrow> Given s
      | None \<Rightarrow> if query_inherits eng \<and> map_of (object_prototype R) name \<noteq> None
                then Foreign else Absent)"

definition chosen ::
  "engine \<Rightarrow> realm \<Rightarrow> string \<Rightarrow> string option \<Rightarrow> (attendance_rec \<Rightarrow> string)
     \<Rightarrow> attendance_rec list \<Rightarrow> attendance_rec list" where
  "chosen eng R name q field xs =
     (case query_field eng R name q of
        Absent \<Rightarrow> xs
      | Given s \<Rightarrow> if s = [] then xs else filter (\<lambda>a. field a = s) xs
      | Foreign \<Rightarrow> [])"

definition get_attendance ::
  "engine \<Rightarrow> env \<Rightarrow> string option \<Rightarrow> string option \<Rightarrow> string option \<Rightarrow> string option
     \<Rightarrow> realm \<Rightarrow> world \<Rightarrow> attendance_rec list \<times> world" where
  "get_attendance eng e q_date q_className q_prayer q_studentId R w =
     (let (data, w1) = readData e w
      in (chosen eng R ''studentId'' q_studentId studentId
            (chosen eng R ''prayer'' q_prayer prayer
               (chosen eng R ''className'' q_className att_className
                  (chosen eng R ''date'' q_date date (attendance data)))), w1))"

text \<open>
  \<^verbatim>\<open>Array.prototype.push\<close> on an array of the realm. An array holds at most \<open>2\<^sup>3\<^sup>2 - 1\<close>
  elements: \<^verbatim>\<open>push\<close> on a full one stores the record under the name \<^verbatim>\<open>4294967295\<close>, which
  is not an index, and raises a \<^verbatim>\<open>RangeError\<close> when it sets the length.
\<close>

datatype js_error = TypeError | RangeError

definition own_cell :: "jarray \<Rightarrow> string \<Rightarrow> cell option" where
  "own_cell A p =
     (case array_index p of
        Some i \<Rightarrow> map_of (elements A) i
      | None \<Rightarrow> map_of (named A) p)"

definition put_cell :: "string \<Rightarrow> cell \<Rightarrow> jarray \<Rightarrow> jarray" where
  "put_cell p c A =
     (case array_index p of
        Some i \<Rightarrow> A\<lparr>arr_length := max (arr_length A) (Suc i),
                     elements := AList.update i c (elements A)\<rparr>
      | None \<Rightarrow> A\<lparr>named := AList.update p c (named A)\<rparr>)"

definition push_item :: "attendance_rec \<Rightarrow> jarray \<Rightarrow> js_error option \<times> jarray" where
  "push_item r A =
     (if arr_length A < max_length
      then (None, A\<lparr>arr_length := Suc (arr_length A),
                     elements := AList.update (arr_length A) (Item r) (elements A)\<rparr>)
      else (Some RangeError, A\<lparr>named := AList.update ''4294967295'' (Item r) (named A)\<rparr>))"

definition push_list :: "attendance_rec \<Rightarrow> attendance_rec list \<Rightarrow> js_error + attendance_rec list"
  where
  "push_list r rs = (if length rs < max_length then Inr (rs @ [r]) else Inl RangeError)"

type_synonym summary = "(attendance_rec list) obj obj"

type_synonym outcome = "(js_error + summary) \<times> realm"

text \<open>
  Lines 374-377 when \<^verbatim>\<open>summary[record.date][record.prayer]\<close> is an array that
  \<^verbatim>\<open>Object.prototype\<close> holds under the name of the prayer: the record is pushed onto that
  array, which is shared by every object, and does not reach the summary.
\<close>

definition push_shared :: "attendance_rec \<Rightarrow> jarray \<Rightarrow> summary \<Rightarrow> realm \<Rightarrow> outcome" where
  "push_shared r A S R =
     (case push_item r A of
        (err, A') \<Rightarrow>
          ((case err of None \<Rightarrow> Inr S | Some x \<Rightarrow> Inl x),
           R\<lparr>object_prototype := AList.update (prayer r) A' (object_prototype R)\<rparr>))"

text \<open>
  \<^verbatim>\<open>summary[record.date]\<close> is \<open>G\<close>, an object the summary owns. An inherited prayer finds a
  built-in function, or \<^verbatim>\<open>Object.prototype\<close> itself under \<^verbatim>\<open>__proto__\<close>, neither of which
  has a method \<^verbatim>\<open>push\<close>: line 377 raises a \<^verbatim>\<open>TypeError\<close>, which the \<^verbatim>\<open>catch\<close> of line 381
  answers with status 500.
\<close>

definition in_group ::
  "attendance_rec \<Rightarrow> (attendance_rec list) obj \<Rightarrow> summary \<Rightarrow> realm \<Rightarrow> outcome" where
  "in_group r G S R =
     (case map_of G (prayer r) of
        Some rs \<Rightarrow> (Inr (set_own (date r) (set_own (prayer r) (rs @ [r]) G) S), R)
      | None \<Rightarrow>
          if inherited (prayer r) then (Inl TypeError, R)
          else (case map_of (object_prototype R) (prayer r) of
                  Some A \<Rightarrow> push_shared r A S R
                | None \<Rightarrow> (Inr (set_own (date r) (put_new (prayer r) [r] G) S), R)))"

text \<open>
  \<^verbatim>\<open>summary[record.date]\<close> is \<^verbatim>\<open>Object.prototype\<close>, for the date \<^verbatim>\<open>__proto__\<close>. Under the
  prayer \<^verbatim>\<open>__proto__\<close> line 375 tries to give \<^verbatim>\<open>Object.prototype\<close> a prototype, which
  raises; under a prayer that is not there yet, it adds an array of that name to
  \<^verbatim>\<open>Object.prototype\<close>.
\<close>

definition on_object_prototype :: "attendance_rec \<Rightarrow> summary \<Rightarrow> realm \<Rightarrow> outcome" where
  "on_object_prototype r S R =
     (if inherited (prayer r) then (Inl TypeError, R)
      else (case map_of (object_prototype R) (prayer r) of
              Some A \<Rightarrow> push_shared r A S R
            | None \<Rightarrow>
                (Inr S, R\<lparr>object_prototype := AList.update (prayer r)
                            \<lparr>arr_length = 1, elements = [(0, Item r)], named = []\<rparr>
                            (object_prototype R)\<rparr>)))"

text \<open>
  \<^verbatim>\<open>summary[record.date]\<close> is the function \<^verbatim>\<open>Object.prototype\<close> holds under the date, one
  of the eleven inherited names other than \<^verbatim>\<open>__proto__\<close>.
\<close>

definition on_function :: "engine \<Rightarrow> attendance_rec \<Rightarrow> summary \<Rightarrow> realm \<Rightarrow> outcome" where
  "on_function eng r S R =
     (case map_of (function_props R) (date r, prayer r) of
        Some rs \<Rightarrow>
          (case push_list r rs of
             Inl x \<Rightarrow> (Inl x, R)
           | Inr rs' \<Rightarrow>
               (Inr S, R\<lparr>function_props := AList.update (date r, prayer r) rs' (function_props R)\<rparr>))
      | None \<Rightarrow>
          if function_has eng (date r) (prayer r) \<or> inherited (prayer r)
          then (Inl TypeError, R)
          else (case map_of (object_prototype R) (prayer r) of
                  Some A \<Rightarrow> push_shared r A S R
                | None \<Rightarrow>
                    (Inr S, R\<lparr>function_props := AList.update (date r, prayer r) [r]
                                              (function_props R)\<rparr>)))"

text \<open>
  \<^verbatim>\<open>summary[record.date]\<close> is \<open>A\<close>, an array that \<^verbatim>\<open>Object.prototype\<close> holds under the
  date. Its \<^verbatim>\<open>length\<close> is a number and an element that is a record has no \<^verbatim>\<open>push\<close>. A
  prayer that \<open>A\<close> does not have is looked up on \<^verbatim>\<open>Array.prototype\<close> and then on
  \<^verbatim>\<open>Object.prototype\<close>; there \<^verbatim>\<open>__proto__\<close> finds \<^verbatim>\<open>Array.prototype\<close>, which is an array, so
  the record is pushed onto it.
\<close>

definition on_array ::
  "engine \<Rightarrow> attendance_rec \<Rightarrow> jarray \<Rightarrow> summary \<Rightarrow> realm \<Rightarrow> outcome" where
  "on_array eng r A S R =
     (if prayer r = ''length'' then (Inl TypeError, R)
      else
        (case own_cell A (prayer r) of
           Some (Item x) \<Rightarrow> (Inl TypeError, R)
         | Some (Inner rs) \<Rightarrow>
             (case push_list r rs of
                Inl x \<Rightarrow> (Inl x, R)
              | Inr rs' \<Rightarrow>
                  (Inr S, R\<lparr>object_prototype := AList.update (date r)
                              (put_cell (prayer r) (Inner rs') A) (object_prototype R)\<rparr>))
         | None \<Rightarrow>
             (case own_cell (array_prototype R) (prayer r) of
                Some c \<Rightarrow> (Inl TypeError, R)
              | None \<Rightarrow>
                  if array_has eng (prayer r) then (Inl TypeError, R)
                  else if prayer r = ''__proto__'' then
                    (case push_item r (array_prototype R) of
                       (err, P) \<Rightarrow>
                         ((case err of None \<Rightarrow> Inr S | Some x \<Rightarrow> Inl x),
                          R\<lparr>array_prototype := P\<rparr>))
                  else if inherited (prayer r) then (Inl TypeError, R)
                  else
                    (case map_of (object_prototype R) (prayer r) of
                       Some B \<Rightarrow> push_shared r B S R
                     | None \<Rightarrow>
                         (Inr S, R\<lparr>object_prototype := AList.update (date r)
                                     (put_cell (prayer r) (Inner [r]) A)
                                     (object_prototype R)\<rparr>)))))"

text \<open>
  The body of the \<^verbatim>\<open>forEach\<close> (lines 370-378) for one record: \<^verbatim>\<open>summary[record.date]\<close> is
  an own property of the summary, or is found on \<^verbatim>\<open>Object.prototype\<close>, or is created by
  line 372.
\<close>

definition group_record :: "engine \<Rightarrow> attendance_rec \<Rightarrow> summary \<Rightarrow> realm \<Rightarrow> outcome" where
  "group_record eng r S R =
     (case map_of S (date r) of
        Some G \<Rightarrow> in_group r G S R
      | None \<Rightarrow>
          if date r = ''__proto__'' then on_object_prototype r S R
          else if inherited (date r) then on_function eng r S R
          else (case map_of (object_prototype R) (date r) of
                  Some A \<Rightarrow> on_array eng r A S R
                | None \<Rightarrow> in_group r [] (put_new (date r) [] S) R))"

fun summarize_from :: "engine \<Rightarrow> attendance_rec list \<Rightarrow> summary \<Rightarrow> realm \<Rightarrow> outcome" where
  "summarize_from eng [] S R = (Inr S, R)"
| "summarize_from eng (r # rs) S R =
     (case group_record eng r S R of
        (Inl x, R') \<Rightarrow> (Inl x, R')
      | (Inr S', R') \<Rightarrow> summarize_from eng rs S' R')"

definition summarize :: "engine \<Rightarrow> attendance_rec list \<Rightarrow> realm \<Rightarrow> outcome" where
  "summarize eng xs R = summarize_from eng xs [] R"

text \<open>
  The route: its answer is the object handed to \<^verbatim>\<open>res.json\<close>, or status 500 with the
  error the \<^verbatim>\<open>catch\<close> of line 381 has caught. What the records before the failing one have
  stored on the built-in objects stays there.
\<close>

definition get_summary ::
  "engine \<Rightarrow> env \<Rightarrow> string option \<Rightarrow> string option \<Rightarrow> realm \<Rightarrow> world
     \<Rightarrow> (js_error + summary) \<times> realm \<times> world" where
  "get_summary eng e q_date q_className R w =
     (let (data, w1) = readData e w;
          (result, R') = summarize eng
             (chosen eng R ''className'' q_className att_className
                (chosen eng R ''date'' q_date date (attendance data))) R
      in (result, R', w1))"

section \<open>Observations on a trace\<close>

text \<open>
  The documents handed to \<^verbatim>\<open>writeData\<close>, the messages serialized and the payloads sent,
  each in the order of the trace.
\<close>

fun written :: "effect list \<Rightarrow> document list" where
  "written [] = []"
| "written (WriteData d ok # es) = d # written es"
| "written (_ # es) = written es"

fun serialized :: "effect list \<Rightarrow> message list" where
  "serialized [] = []"
| "serialized (Stringify m # es) = m # serialized es"
| "serialized (_ # es) = serialized es"

fun delivered :: "effect list \<Rightarrow> (nat \<times> string) list" where
  "delivered [] = []"
| "delivered (Send h s # es) = (h, s) # delivered es"
| "delivered (_ # es) = delivered es"

definition is_open :: "client \<Rightarrow> bool" where
  "is_open c = (readyState c = 1)"

definition sends :: "string \<Rightarrow> client list \<Rightarrow> effect list" where
  "sends data cs = map (\<lambda>c. Send (handle c) data) (filter is_open cs)"

section \<open>A request as a decision and its execution\<close>

text \<open>
  For the proofs each mutating route is read as a decision taken on the loaded document
  (the response and, unless the body is rejected, the document and the message to commit)
  followed by the execution all six routes share: \<^verbatim>\<open>writeData\<close>, whose result is
  dropped, then \<^verbatim>\<open>broadcast\<close>. \<open>handle_request_plan\<close> below shows that this reading is
  the routes themselves.
\<close>

definition committed :: "env \<Rightarrow> document \<Rightarrow> message \<Rightarrow> world \<Rightarrow> world" where
  "committed e d m w1 =
     w1\<lparr>disk := (if write_ok e then Stored d
                 else if write_torn e then Unreadable else disk w1),
        trace := trace w1 @ WriteData d (write_ok e) # Stringify m
                   # sends (stringify e m) (clients w1)\<rparr>"

fun plan :: "env \<Rightarrow> request \<Rightarrow> document \<Rightarrow> response \<times> (document \<times> message) option" where
  "plan e (PostClass body) data =
     (if \<not> truthy (b_id body) \<or> \<not> truthy (b_name body)
      then (Failure 400 ''id and name are required'', None)
      else
        let i = str (b_id body);
            data' = upsertClass e i (str (b_name body)) data;
            newClass = found (find (\<lambda>c. class_id c = i) (classes data')) ClassData
        in (Json newClass,
            Some (data', Change ''class_updated'' newClass
                          (action_of (findIndex (\<lambda>c. class_id c = i) (classes data))))))"
| "plan e (DeleteClass i) data =
     (Success, Some (deleteClass i data, Change ''class_deleted'' (IdData i) ''deleted''))"
| "plan e (PostStudent body) data =
     (if \<not> truthy (sb_id body) \<or> \<not> truthy (sb_name body) \<or> \<not> truthy (sb_className body)
      then (Failure 400 ''id, name, and className are required'', None)
      else
        let i = str (sb_id body);
            data' = upsertStudent e i (str (sb_name body)) (sb_rollNumber body)
                      (str (sb_className body)) data;
            newStudent = found (find (\<lambda>s. student_id s = i) (students data')) StudentData
        in (Json newStudent,
            Some (data', Change ''student_updated'' newStudent
                          (action_of (findIndex (\<lambda>s. student_id s = i) (students data))))))"
| "plan e (DeleteStudent i) data =
     (Success, Some (deleteStudent i data, Change ''student_deleted'' (IdData i) ''deleted''))"
| "plan e (PostAttendance body) data =
     (if \<not> truthy (ab_id body) \<or> \<not> truthy (ab_studentId body)
         \<or> \<not> truthy (ab_studentName body) \<or> \<not> truthy (ab_className body)
         \<or> \<not> truthy (ab_prayer body) \<or> \<not> truthy (ab_date body)
         \<or> \<not> truthy (ab_status body)
      then (Failure 400
              ''id, studentId, studentName, className, prayer, date, and status are required'',
            None)
      else
        let i = str (ab_id body);
            data' = upsertAttendance e body data;
            attendanceRecord =
              found (find (\<lambda>a. att_id a = i) (attendance data')) AttendanceData
        in (Json attendanceRecord,
            Some (data', Change ''attendance_updated'' attendanceRecord
                          (action_of (findIndex (\<lambda>a. att_id a = i) (attendance data))))))"
| "plan e (DeleteAttendance i) data =
     (Success,
      Some (deleteAttendance i data, Change ''attendance_deleted'' (IdData i) ''deleted''))"

definition carry_out ::
  "env \<Rightarrow> response \<times> (document \<times> message) option \<Rightarrow> world \<Rightarrow> response \<times> world" where
  "carry_out e p w1 =
     (case p of
        (r, None) \<Rightarrow> (r, w1)
      | (r, Some (d, m)) \<Rightarrow> (r, committed e d m w1))"

section \<open>The specification's words\<close>

text \<open>
  The number of classes with an id, and grouping by first appearance (section 4.2 of the
  specification).
\<close>

definition count_id :: "string \<Rightarrow> class_rec list \<Rightarrow> nat" where
  "count_id i cs = length (filter (\<lambda>c. class_id c = i) cs)"

fun first_seen :: "'a list \<Rightarrow> 'a list" where
  "first_seen [] = []"
| "first_seen (x # xs) = x # filter (\<lambda>y. y \<noteq> x) (first_seen xs)"

definition group_by :: "('a \<Rightarrow> string) \<Rightarrow> ('a list \<Rightarrow> 'v) \<Rightarrow> 'a list \<Rightarrow> 'v obj" where
  "group_by key inner xs =
     map (\<lambda>k. (k, inner [x \<leftarrow> xs. key x = k])) (first_seen (map key xs))"

definition grouped :: "attendance_rec list \<Rightarrow> summary" where
  "grouped xs = group_by date (group_by prayer (\<lambda>rs. rs)) xs"

text \<open>
  The order in which JavaScript enumerates the keys of an object that received them in the
  order \<open>ks\<close>: \<open>insert_key\<close> puts an array index after the indices that are not greater and
  before everything else, and any other key at the end.
\<close>

fun insert_key :: "string \<Rightarrow> string list \<Rightarrow> string list" where
  "insert_key k [] = [k]"
| "insert_key k (k' # ks) =
     (case array_index k of
        None \<Rightarrow> k' # insert_key k ks
      | Some n \<Rightarrow>
          (case array_index k' of
             None \<Rightarrow> k # k' # ks
           | Some n' \<Rightarrow> if n < n' then k # k' # ks else k' # insert_key k ks))"

definition key_order :: "string list \<Rightarrow> string list" where
  "key_order ks = foldl (\<lambda>acc k. if k \<in> set acc then acc else insert_key k acc) [] ks"

definition js_group_by :: "('a \<Rightarrow> string) \<Rightarrow> ('a list \<Rightarrow> 'v) \<Rightarrow> 'a list \<Rightarrow> 'v obj" where
  "js_group_by key inner xs =
     map (\<lambda>k. (k, inner [x \<leftarrow> xs. key x = k])) (key_order (map key xs))"

definition js_grouped :: "attendance_rec list \<Rightarrow> summary" where
  "js_grouped xs = js_group_by date (js_group_by prayer (\<lambda>rs. rs)) xs"

text \<open>
  What that order is, said without the insertion: \<open>out\<close> holds each key of \<open>ks\<close> once; the
  array indices come first, in ascending numeric order; the other keys follow in the order
  of their first appearance in \<open>ks\<close>.
\<close>

definition is_index :: "string \<Rightarrow> bool" where
  "is_index k = (array_index k \<noteq> None)"

definition index_value :: "string \<Rightarrow> nat" where
  "index_value k = (case array_index k of Some n \<Rightarrow> n | None \<Rightarrow> 0)"

definition js_order :: "string list \<Rightarrow> string list \<Rightarrow> bool" where
  "js_order ks out =
     (distinct out \<and> set out = set ks
      \<and> out = filter is_index out @ filter (\<lambda>k. \<not> is_index k) out
      \<and> sorted (map index_value (filter is_index out))
      \<and> filter (\<lambda>k. \<not> is_index k) out = filter (\<lambda>k. \<not> is_index k) (first_seen ks))"

text \<open>
  The filters of the two query parameters as the specification has them: a parameter that
  is given and not empty selects the records with that value.
\<close>

definition when_given ::
  "string option \<Rightarrow> (attendance_rec \<Rightarrow> string) \<Rightarrow> attendance_rec list \<Rightarrow> attendance_rec list"
  where
  "when_given q field xs = (if truthy q then filter (\<lambda>a. field a = str q) xs else xs)"

section \<open>Example data\<close>

text \<open>
  A stand-in for \<^verbatim>\<open>JSON.stringify\<close> and the documents, clients and requests at which the
  properties below are instantiated.
\<close>

fun tag :: "message \<Rightarrow> string" where
  "tag (Change t d a) = t @ ''/'' @ a"
| "tag Connected = ''connected''"

definition env0 :: env where
  "env0 = \<lparr>now1 = ''2024-01-03T10:00:00.000Z'', now2 = ''2024-01-03T10:00:00.001Z'',
            init_write_ok = True, write_ok = True, init_write_torn = False,
            write_torn = False, stringify = tag\<rparr>"

definition env_disk_full :: env where
  "env_disk_full = env0\<lparr>write_ok := False\<rparr>"

definition env_torn :: env where
  "env_torn = env0\<lparr>write_ok := False, write_torn := True\<rparr>"

definition grade5 :: class_rec where
  "grade5 = \<lparr>class_id = ''c5'', class_name = ''Grade 5'',
              createdAt = Some ''2024-01-01T08:00:00.000Z'',
              class_updatedAt = ''2024-01-01T08:00:00.000Z''\<rparr>"

definition grade6 :: class_rec where
  "grade6 = \<lparr>class_id = ''c6'', class_name = ''Grade 6'',
              createdAt = Some ''2024-01-01T08:05:00.000Z'',
              class_updatedAt = ''2024-01-01T08:05:00.000Z''\<rparr>"

definition ali :: student where
  "ali = \<lparr>student_id = ''s1'', student_name = ''Ali'', rollNumber = Some ''7'',
           student_className = ''Grade 5'', student_updatedAt = ''2024-01-01T08:10:00.000Z''\<rparr>"

definition bilal :: student where
  "bilal = \<lparr>student_id = ''s2'', student_name = ''Bilal'', rollNumber = None,
             student_className = ''Grade 6'', student_updatedAt = ''2024-01-01T08:11:00.000Z''\<rparr>"

definition rec1 :: attendance_rec where
  "rec1 = \<lparr>att_id = ''a1'', studentId = ''s1'', studentName = ''Ali'',
            att_className = ''Grade 5'', prayer = ''fajr'', date = ''2024-01-01'',
            status = ''present'', reason = None, timestamp = ''2024-01-01T05:30:00.000Z'',
            att_updatedAt = ''2024-01-01T05:30:01.000Z''\<rparr>"

definition rec2 :: attendance_rec where
  "rec2 = \<lparr>att_id = ''a2'', studentId = ''s2'', studentName = ''Bilal'',
            att_className = ''Grade 6'', prayer = ''fajr'', date = ''2024-01-01'',
            status = ''absent'', reason = Some ''sick'', timestamp = ''2024-01-01T05:31:00.000Z'',
            att_updatedAt = ''2024-01-01T05:31:01.000Z''\<rparr>"

definition rec3 :: attendance_rec where
  "rec3 = \<lparr>att_id = ''a3'', studentId = ''s1'', studentName = ''Ali'',
            att_className = ''Grade 5'', prayer = ''dhuhr'', date = ''2024-01-02'',
            status = ''present'', reason = None, timestamp = ''2024-01-02T12:30:00.000Z'',
            att_updatedAt = ''2024-01-02T12:30:01.000Z''\<rparr>"

definition orphan :: attendance_rec where
  "orphan = \<lparr>att_id = ''a7'', studentId = ''s9'', studentName = ''Hamza'',
              att_className = ''Grade 5'', prayer = ''isha'', date = ''2024-01-02'',
              status = ''present'', reason = None, timestamp = ''2024-01-02T19:00:00.000Z'',
              att_updatedAt = ''2024-01-02T19:00:01.000Z''\<rparr>"

definition late :: attendance_rec where
  "late = rec1\<lparr>date := ''20240102''\<rparr>"

definition early :: attendance_rec where
  "early = rec2\<lparr>date := ''20240101''\<rparr>"

definition doc0 :: document where
  "doc0 = \<lparr>classes = [grade5, grade6], students = [ali, bilal],
            attendance = [rec1, rec2, rec3]\<rparr>"

definition doc2 :: document where
  "doc2 = \<lparr>classes = [grade5], students = [ali], attendance = [rec1, orphan]\<rparr>"

definition closing :: client where
  "closing = \<lparr>handle = 2, readyState = 2\<rparr>"

definition world0 :: world where
  "world0 = \<lparr>disk = Stored doc0,
              clients = [\<lparr>handle = 1, readyState = 1\<rparr>, \<lparr>handle = 2, readyState = 2\<rparr>,
                         \<lparr>handle = 3, readyState = 1\<rparr>],
              trace = []\<rparr>"

definition world2 :: world where
  "world2 = \<lparr>disk = Stored doc2, clients = [\<lparr>handle = 1, readyState = 1\<rparr>], trace = []\<rparr>"

definition body5 :: class_body where
  "body5 = \<lparr>b_id = Some ''c5'', b_name = Some ''Grade 5A''\<rparr>"

definition publish_note :: message where
  "publish_note = Change ''attendance_updated'' (AttendanceData rec1) ''created''"

text \<open>
  An engine with \<^verbatim>\<open>qs\<close> as query parser and some of the names V8 gives its functions and
  \<^verbatim>\<open>Array.prototype\<close>; two records dated \<^verbatim>\<open>__proto__\<close>, and the realm a summary of them
  leaves behind.
\<close>

definition engine0 :: engine where
  "engine0 = \<lparr>query_inherits = True,
     function_has = (\<lambda>d p. p \<in> set [''length'', ''name'', ''arguments'', ''caller'', ''apply'',
                                        ''bind'', ''call'']
                            \<or> d = ''constructor''
                              \<and> p \<in> set [''prototype'', ''assign'', ''create'', ''entries'',
                                          ''freeze'', ''keys'', ''values'']),
     array_has = (\<lambda>p. p \<in> set [''concat'', ''filter'', ''find'', ''forEach'', ''includes'',
                                 ''indexOf'', ''join'', ''map'', ''pop'', ''push'', ''shift'',
                                 ''slice'', ''sort'', ''splice'', ''unshift''])\<rparr>"

definition doc3 :: document where
  "doc3 = \<lparr>classes = [grade5, grade6], students = [ali, bilal], attendance = [late, early]\<rparr>"

definition world3 :: world where
  "world3 = \<lparr>disk = Stored doc3, clients = [], trace = []\<rparr>"

definition smuggled :: attendance_rec where
  "smuggled = rec1\<lparr>date := ''__proto__''\<rparr>"

definition unvetted :: attendance_rec where
  "unvetted = rec2\<lparr>date := ''__proto__'', prayer := ''status''\<rparr>"

definition soiled :: realm where
  "soiled = pristine\<lparr>object_prototype :=
     [(''fajr'', \<lparr>arr_length = 1, elements = [(0, Item smuggled)], named = []\<rparr>),
      (''status'', \<lparr>arr_length = 1, elements = [(0, Item unvetted)], named = []\<rparr>)]\<rparr>"

section \<open>Documents of the data model\<close>

text \<open>
  The class collection of the specification's data model: ids are unique and every class has
  a creation time. The server never checks this; it holds of the initial document and is
  kept by every route.
\<close>

definition classes_ok :: "document \<Rightarrow> bool" where
  "classes_ok d = (distinct (map class_id (classes d))
                   \<and> (\<forall>c \<in> set (classes d). truthy (createdAt c)))"

definition stored_ok :: "world \<Rightarrow> bool" where
  "stored_ok w = (case disk w of Stored d \<Rightarrow> classes_ok d | _ \<Rightarrow> True)"

section \<open>Auxiliary facts\<close>

lemma readData_unfold:
  "readData e w =
     (case disk w of
        Missing \<Rightarrow>
          (if init_write_ok e
           then (initialData, log (EnsureWrite True) (w\<lparr>disk := Stored initialData\<rparr>))
           else if init_write_torn e
           then (initialData, log (EnsureWrite False) (w\<lparr>disk := Unreadable\<rparr>))
           else (initialData, log (EnsureWrite False) w))
      | Unreadable \<Rightarrow> (initialData, w)
      | Stored d \<Rightarrow> (d, w))"
  by (simp add: readData_def ensureDataFile_def log_def split: file_state.splits)

lemma written_append: "written (xs @ ys) = written xs @ written ys"
  by (induction xs rule: written.induct) simp_all

lemma serialized_append: "serialized (xs @ ys) = serialized xs @ serialized ys"
  by (induction xs rule: serialized.induct) simp_all

lemma delivered_append: "delivered (xs @ ys) = delivered xs @ delivered ys"
  by (induction xs rule: delivered.induct) simp_all

lemma written_sends: "written (sends data cs) = []"
  by (induction cs) (simp_all add: sends_def)

lemma serialized_sends: "serialized (sends data cs) = []"
  by (induction cs) (simp_all add: sends_def)

lemma delivered_sends:
  "delivered (sends data cs) = map (\<lambda>c. (handle c, data)) (filter is_open cs)"
  by (induction cs) (simp_all add: sends_def)

lemma forEach_send:
  "forEach (\<lambda>c w'. if readyState c = 1 then send c data w' else w') cs w
     = w\<lparr>trace := trace w @ sends data cs\<rparr>"
  by (induction cs arbitrary: w) (simp_all add: sends_def is_open_def send_def log_def)

lemma broadcast_eq:
  "broadcast e m w = w\<lparr>trace := trace w @ Stringify m # sends (stringify e m) (clients w)\<rparr>"
  unfolding broadcast_def Let_def forEach_send by (simp add: log_def)

lemma commit_eq: "broadcast e m (snd (writeData e d w1)) = committed e d m w1"
  by (simp add: broadcast_eq writeData_def committed_def log_def)

lemma delete_classes_eq:
  "readData e w = (d, w1) \<Longrightarrow>
   delete_classes e i w =
     (Success, committed e (deleteClass i d) (Change ''class_deleted'' (IdData i) ''deleted'') w1)"
  by (simp add: delete_classes_def commit_eq [symmetric] split: prod.splits)

lemma delete_students_eq:
  "readData e w = (d, w1) \<Longrightarrow>
   delete_students e i w =
     (Success,
      committed e (deleteStudent i d) (Change ''student_deleted'' (IdData i) ''deleted'') w1)"
  by (simp add: delete_students_def commit_eq [symmetric] split: prod.splits)

lemma delete_attendance_eq:
  "readData e w = (d, w1) \<Longrightarrow>
   delete_attendance e i w =
     (Success,
      committed e (deleteAttendance i d) (Change ''attendance_deleted'' (IdData i) ''deleted'')
        w1)"
  by (simp add: delete_attendance_def commit_eq [symmetric] split: prod.splits)

lemma readData_written: "readData e w = (d, w1) \<Longrightarrow> written (trace w1) = written (trace w)"
  by (auto simp: readData_unfold log_def written_append split: file_state.splits if_splits)

lemma readData_serialized:
  "readData e w = (d, w1) \<Longrightarrow> serialized (trace w1) = serialized (trace w)"
  by (auto simp: readData_unfold log_def serialized_append split: file_state.splits if_splits)

lemma readData_delivered:
  "readData e w = (d, w1) \<Longrightarrow> delivered (trace w1) = delivered (trace w)"
  by (auto simp: readData_unfold log_def delivered_append split: file_state.splits if_splits)

lemma readData_clients: "readData e w = (d, w1) \<Longrightarrow> clients w1 = clients w"
  by (auto simp: readData_unfold log_def split: file_state.splits if_splits)

lemma written_committed:
  "written (trace (committed e d m w1)) = written (trace w1) @ [d]"
  by (simp add: committed_def written_append written_sends)

lemma serialized_committed:
  "serialized (trace (committed e d m w1)) = serialized (trace w1) @ [m]"
  by (simp add: committed_def serialized_append serialized_sends)

lemma delivered_committed:
  "delivered (trace (committed e d m w1))
     = delivered (trace w1) @ map (\<lambda>c. (handle c, stringify e m)) (filter is_open (clients w1))"
  by (simp add: committed_def delivered_append delivered_sends)

lemma readData_after_committed:
  "write_ok e \<Longrightarrow> fst (readData e2 (committed e d m w1)) = d"
  by (simp add: committed_def readData_unfold)

lemma readData_again:
  "readData e w = (d, w1) \<Longrightarrow> fst (readData e2 w1) = d"
  by (auto simp: readData_unfold log_def split: file_state.splits if_splits)

lemma readData_committed_failed:
  "\<not> write_ok e \<Longrightarrow> \<not> write_torn e
     \<Longrightarrow> fst (readData e2 (committed e d m w1)) = fst (readData e2 w1)"
  by (simp add: committed_def readData_unfold split: file_state.splits)

lemma findIndex_None: "findIndex P xs = None \<longleftrightarrow> (\<forall>x \<in> set xs. \<not> P x)"
  by (induction xs) auto

lemma findIndex_Some:
  "findIndex P xs = Some k \<longleftrightarrow> k < length xs \<and> P (xs ! k) \<and> (\<forall>j < k. \<not> P (xs ! j))"
proof (induction xs arbitrary: k)
  case Nil
  then show ?case by simp
next
  case (Cons x xs)
  show ?case
  proof (cases "P x")
    case True
    then show ?thesis by (cases k) auto
  next
    case False
    show ?thesis
    proof (cases k)
      case 0
      with False show ?thesis by auto
    next
      case (Suc k')
      have "(\<forall>j < Suc k'. \<not> P ((x # xs) ! j)) \<longleftrightarrow> (\<forall>j < k'. \<not> P (xs ! j))"
        using False by (auto simp: less_Suc_eq_0_disj)
      with False Suc Cons.IH [of k'] show ?thesis by auto
    qed
  qed
qed

lemma filter_update_same:
  "k < length xs \<Longrightarrow> P (xs ! k) \<Longrightarrow> P y
     \<Longrightarrow> length (filter P (xs[k := y])) = length (filter P xs)"
proof (induction xs arbitrary: k)
  case Nil
  then show ?case by simp
next
  case (Cons x xs)
  then show ?case by (cases k) auto
qed

lemma find_update_first:
  "k < length xs \<Longrightarrow> \<forall>j < k. \<not> P (xs ! j) \<Longrightarrow> P y \<Longrightarrow> find P (xs[k := y]) = Some y"
proof (induction xs arbitrary: k)
  case Nil
  then show ?case by simp
next
  case (Cons x xs)
  show ?case
  proof (cases k)
    case 0
    with Cons.prems show ?thesis by simp
  next
    case (Suc k')
    from Cons.prems Suc have "\<not> P x" by auto
    moreover from Cons.prems Suc have "\<forall>j < k'. \<not> P (xs ! j)" by auto
    ultimately show ?thesis using Cons.IH [of k'] Cons.prems Suc by simp
  qed
qed

lemma find_append_new:
  "\<forall>x \<in> set xs. \<not> P x \<Longrightarrow> P y \<Longrightarrow> find P (xs @ [y]) = Some y"
  by (induction xs) auto

lemma filter_none: "\<forall>x \<in> set xs. \<not> P x \<Longrightarrow> filter P xs = []"
  by (induction xs) auto

lemma count_id_upsertClass:
  "count_id i (classes (upsertClass e i n data)) = max 1 (count_id i (classes data))"
proof (cases "findIndex (\<lambda>c. class_id c = i) (classes data)")
  case None
  then have "filter (\<lambda>c. class_id c = i) (classes data) = []"
    by (simp add: findIndex_None filter_none)
  with None show ?thesis by (simp add: upsertClass_def count_id_def)
next
  case (Some k)
  then have k: "k < length (classes data)" "class_id (classes data ! k) = i"
    by (simp_all add: findIndex_Some)
  then have "classes data ! k \<in> set (filter (\<lambda>c. class_id c = i) (classes data))"
    by simp
  then have pos: "0 < count_id i (classes data)"
    unfolding count_id_def by (metis length_pos_if_in_set)
  have "count_id i (classes (upsertClass e i n data)) = count_id i (classes data)"
    using Some k by (simp add: upsertClass_def count_id_def filter_update_same)
  with pos show ?thesis by simp
qed

lemma length_upsertClass:
  "length (classes (upsertClass e i n data))
     = (if i \<in> class_id ` set (classes data) then length (classes data)
        else Suc (length (classes data)))"
proof (cases "findIndex (\<lambda>c. class_id c = i) (classes data)")
  case None
  then have "i \<notin> class_id ` set (classes data)" by (auto simp: findIndex_None)
  with None show ?thesis by (simp add: upsertClass_def)
next
  case (Some k)
  then have "k < length (classes data)" "class_id (classes data ! k) = i"
    by (simp_all add: findIndex_Some)
  then have "i \<in> class_id ` set (classes data)" by (metis imageI nth_mem)
  with Some show ?thesis by (simp add: upsertClass_def)
qed

lemma readData_world0: "readData e world0 = (doc0, world0)"
  by (simp add: readData_unfold world0_def)

lemma world0_simps:
  "trace world0 = []" "disk world0 = Stored doc0"
  "clients world0 = [\<lparr>handle = 1, readyState = 1\<rparr>, \<lparr>handle = 2, readyState = 2\<rparr>,
                     \<lparr>handle = 3, readyState = 1\<rparr>]"
  by (simp_all add: world0_def)

lemma post_classes_eq:
  assumes "truthy (b_id body)" and "truthy (b_name body)" and "readData e w = (d, w1)"
  shows "post_classes e body w =
    (Json (found (find (\<lambda>c. class_id c = str (b_id body))
                   (classes (upsertClass e (str (b_id body)) (str (b_name body)) d))) ClassData),
     committed e (upsertClass e (str (b_id body)) (str (b_name body)) d)
       (Change ''class_updated''
          (found (find (\<lambda>c. class_id c = str (b_id body))
                   (classes (upsertClass e (str (b_id body)) (str (b_name body)) d))) ClassData)
          (action_of (findIndex (\<lambda>c. class_id c = str (b_id body)) (classes d))))
       w1)"
  using assms
  by (simp add: post_classes_def Let_def commit_eq [symmetric] split: prod.splits)

lemma upsertClass_existing:
  assumes "k < length (classes data)" and "class_id (classes data ! k) = i"
    and "\<forall>j < k. class_id (classes data ! j) \<noteq> i"
  shows "classes (upsertClass e i n data) = (classes data)[k :=
           \<lparr>class_id = i, class_name = n,
             createdAt = (if truthy (createdAt (classes data ! k))
                          then createdAt (classes data ! k) else Some (now1 e)),
             class_updatedAt = (if truthy (createdAt (classes data ! k))
                                then now1 e else now2 e)\<rparr>]"
proof -
  from assms have "findIndex (\<lambda>c. class_id c = i) (classes data) = Some k"
    by (simp add: findIndex_Some)
  then show ?thesis by (simp add: upsertClass_def)
qed

lemma upsertClass_new:
  assumes "i \<notin> class_id ` set (classes data)"
  shows "classes (upsertClass e i n data) = classes data @
           [\<lparr>class_id = i, class_name = n, createdAt = Some (now1 e),
             class_updatedAt = now2 e\<rparr>]"
proof -
  from assms have "findIndex (\<lambda>c. class_id c = i) (classes data) = None"
    by (auto simp: findIndex_None)
  then show ?thesis by (simp add: upsertClass_def)
qed

lemma upsertClass_frame:
  "students (upsertClass e i n data) = students data
   \<and> attendance (upsertClass e i n data) = attendance data"
  by (simp add: upsertClass_def split: option.splits)

lemma upsertClass_has_id: "i \<in> class_id ` set (classes (upsertClass e i n data))"
proof -
  have "0 < count_id i (classes (upsertClass e i n data))"
    by (simp add: count_id_upsertClass)
  then obtain c where "c \<in> set (filter (\<lambda>c. class_id c = i) (classes (upsertClass e i n data)))"
    unfolding count_id_def by (metis length_greater_0_conv last_in_set)
  then show ?thesis by auto
qed

lemma handle_request_plan:
  assumes "readData e w = (data, w1)"
  shows "handle_request e req w = carry_out e (plan e req data) w1"
proof (cases req)
  case (PostClass body)
  with assms show ?thesis
    by (simp add: post_classes_def carry_out_def Let_def commit_eq [symmetric]
          split: prod.splits)
next
  case (DeleteClass i)
  with assms show ?thesis by (simp add: delete_classes_eq carry_out_def)
next
  case (PostStudent body)
  with assms show ?thesis
    by (simp add: post_students_def carry_out_def Let_def commit_eq [symmetric]
          split: prod.splits)
next
  case (DeleteStudent i)
  with assms show ?thesis by (simp add: delete_students_eq carry_out_def)
next
  case (PostAttendance body)
  with assms show ?thesis
    by (simp add: post_attendance_def carry_out_def Let_def commit_eq [symmetric]
          split: prod.splits)
next
  case (DeleteAttendance i)
  with assms show ?thesis by (simp add: delete_attendance_eq carry_out_def)
qed

lemma upsert_write_ok:
  "upsertClass (e\<lparr>write_ok := b\<rparr>) i n data = upsertClass e i n data"
  "upsertStudent (e\<lparr>write_ok := b\<rparr>) i n r cn data = upsertStudent e i n r cn data"
  "upsertAttendance (e\<lparr>write_ok := b\<rparr>) body data = upsertAttendance e body data"
  by (simp_all add: upsertClass_def upsertStudent_def upsertAttendance_def
        cong: option.case_cong if_cong)

lemma plan_write_ok: "plan (e\<lparr>write_ok := b\<rparr>) req data = plan e req data"
  by (cases req) (simp_all add: upsert_write_ok)

lemma readData_write_ok:
  "readData (e\<lparr>write_ok := b\<rparr>) w = readData e w"
  by (simp add: readData_unfold)

lemma readData_clients_upd:
  "readData e w = (d, w1) \<Longrightarrow> readData e (w\<lparr>clients := cs\<rparr>) = (d, w1\<lparr>clients := cs\<rparr>)"
  by (auto simp: readData_unfold log_def split: file_state.splits if_splits)

lemma fst_carry_out: "fst (carry_out e p w1) = fst p"
  by (simp add: carry_out_def split: prod.splits option.splits)

lemma clients_carry_out: "clients (snd (carry_out e p w1)) = clients w1"
  by (simp add: carry_out_def committed_def split: prod.splits option.splits)

lemma response_plan: "fst (handle_request e req w) = fst (plan e req (fst (readData e w)))"
  using handle_request_plan [of e w "fst (readData e w)" "snd (readData e w)" req]
  by (simp add: fst_carry_out)

lemma response_without_clients:
  "fst (handle_request e req (w\<lparr>clients := cs\<rparr>)) = fst (handle_request e req w)"
proof -
  have "fst (readData e (w\<lparr>clients := cs\<rparr>)) = fst (readData e w)"
    using readData_clients_upd [of e w "fst (readData e w)" "snd (readData e w)" cs] by simp
  then show ?thesis by (simp add: response_plan)
qed

lemma clients_handle_request: "clients (snd (handle_request e req w)) = clients w"
  using handle_request_plan [of e w "fst (readData e w)" "snd (readData e w)" req]
    readData_clients [of e w "fst (readData e w)" "snd (readData e w)"]
  by (simp add: clients_carry_out)

lemma carry_out_serialized:
  "serialized (trace (snd (carry_out e p w1)))
     = serialized (trace w1) @ (case snd p of None \<Rightarrow> [] | Some (d, m) \<Rightarrow> [m])"
  by (simp add: carry_out_def serialized_committed split: prod.splits option.splits)

lemma carry_out_delivered:
  "delivered (trace (snd (carry_out e p w1)))
     = delivered (trace w1) @
       (case snd p of None \<Rightarrow> []
        | Some (d, m) \<Rightarrow> map (\<lambda>c. (handle c, stringify e m)) (filter is_open (clients w1)))"
  by (simp add: carry_out_def delivered_committed split: prod.splits option.splits)

lemma carry_out_written:
  "written (trace (snd (carry_out e p w1)))
     = written (trace w1) @ (case snd p of None \<Rightarrow> [] | Some (d, m) \<Rightarrow> [d])"
  by (simp add: carry_out_def written_committed split: prod.splits option.splits)

lemma deleteClass_absent:
  "i \<notin> class_id ` set (classes data) \<Longrightarrow> deleteClass i data = data"
proof -
  assume a: "i \<notin> class_id ` set (classes data)"
  then have "find (\<lambda>c. class_id c = i) (classes data) = None"
    by (auto simp: find_None_iff)
  moreover from a have "filter (\<lambda>c. class_id c \<noteq> i) (classes data) = classes data"
    by (auto simp: filter_id_conv)
  ultimately show ?thesis by (simp add: deleteClass_def)
qed

lemma deleteAttendance_absent:
  "i \<notin> att_id ` set (attendance data) \<Longrightarrow> deleteAttendance i data = data"
proof -
  assume "i \<notin> att_id ` set (attendance data)"
  then have "filter (\<lambda>a. att_id a \<noteq> i) (attendance data) = attendance data"
    by (auto simp: filter_id_conv)
  then show ?thesis by (simp add: deleteAttendance_def)
qed

lemma deleteStudent_absent:
  "i \<notin> student_id ` set (students data) \<Longrightarrow>
     deleteStudent i data = data\<lparr>attendance := [a \<leftarrow> attendance data. studentId a \<noteq> i]\<rparr>"
proof -
  assume "i \<notin> student_id ` set (students data)"
  then have "filter (\<lambda>s. student_id s \<noteq> i) (students data) = students data"
    by (auto simp: filter_id_conv)
  then show ?thesis by (simp add: deleteStudent_def)
qed

lemma deleted_observed:
  assumes "readData e w = (data, w1)"
    and "handle_request e req w = (Success, committed e d m w1)"
  shows "fst (handle_request e req w) = Success
       \<and> serialized (trace (snd (handle_request e req w))) = serialized (trace w) @ [m]
       \<and> delivered (trace (snd (handle_request e req w)))
           = delivered (trace w) @ map (\<lambda>c. (handle c, stringify e m)) (filter is_open (clients w))
       \<and> written (trace (snd (handle_request e req w))) = written (trace w) @ [d]"
  using assms
  by (simp add: serialized_committed delivered_committed written_committed
        readData_serialized readData_delivered readData_written readData_clients)

lemma set_first_seen: "set (first_seen xs) = set xs"
  by (induction xs) auto

lemma distinct_first_seen: "distinct (first_seen xs)"
  by (induction xs) (auto simp: set_first_seen)

lemma first_seen_snoc:
  "first_seen (xs @ [x]) = (if x \<in> set xs then first_seen xs else first_seen xs @ [x])"
  by (induction xs) (auto simp: set_first_seen)

lemma put_new_plain: "array_index k = None \<Longrightarrow> put_new k v ps = ps @ [(k, v)]"
  by (induction ps) auto

lemma map_of_keyed:
  "map_of (map (\<lambda>k. (k, f k)) ks) k = (if k \<in> set ks then Some (f k) else None)"
  by (induction ks) auto

lemma set_own_keyed:
  "distinct ks \<Longrightarrow>
     set_own k v (map (\<lambda>x. (x, f x)) ks) = map (\<lambda>x. (x, if x = k then v else f x)) ks"
  by (induction ks) auto

lemma group_by_snoc_new:
  assumes "key y \<notin> key ` set xs"
  shows "group_by key inner (xs @ [y]) = group_by key inner xs @ [(key y, inner [y])]"
proof -
  have "filter (\<lambda>x. key x = key y) xs = []"
    using assms by (auto simp: filter_empty_conv image_iff)
  then show ?thesis
    using assms by (auto simp: group_by_def first_seen_snoc set_first_seen)
qed

lemma group_by_snoc_old:
  assumes "key y \<in> key ` set xs"
  shows "group_by key inner (xs @ [y])
           = set_own (key y) (inner ([x \<leftarrow> xs. key x = key y] @ [y])) (group_by key inner xs)"
  using assms
  by (auto simp: group_by_def first_seen_snoc set_own_keyed distinct_first_seen)

lemma map_of_group_by:
  "map_of (group_by key inner xs) k
     = (if k \<in> key ` set xs then Some (inner [x \<leftarrow> xs. key x = k]) else None)"
  by (simp add: group_by_def map_of_keyed set_first_seen)

lemma map_fst_group_by: "map fst (group_by key inner ys) = first_seen (map key ys)"
  by (simp add: group_by_def comp_def)

lemma example_keys: "map date [rec1, rec2, rec3] = [''2024-01-01'', ''2024-01-01'', ''2024-01-02'']"
    "map prayer [rec1, rec2, rec3] = [''fajr'', ''fajr'', ''dhuhr'']"
    by (simp_all add: rec1_def rec2_def rec3_def)

lemma example_fields: "date rec1 = ''2024-01-01''" "date rec2 = ''2024-01-01''" "date rec3 = ''2024-01-02''"
    "prayer rec1 = ''fajr''" "prayer rec2 = ''fajr''" "prayer rec3 = ''dhuhr''"
    by (simp_all add: rec1_def rec2_def rec3_def)

lemma example_grouped: "grouped [rec1, rec2, rec3]
             = [(''2024-01-01'', [(''fajr'', [rec1, rec2])]),
                (''2024-01-02'', [(''dhuhr'', [rec3])])]"
    by (simp add: grouped_def group_by_def example_fields)

subsection \<open>Documents of the data model\<close>

lemma distinct_first:
  assumes "distinct (map f xs)" and "k < length xs" and "f (xs ! k) = i"
  shows "\<forall>j < k. f (xs ! j) \<noteq> i"
proof (intro allI impI)
  fix j assume "j < k"
  with assms have "map f xs ! j \<noteq> map f xs ! k"
    using distinct_conv_nth [of "map f xs"] by auto
  with assms \<open>j < k\<close> show "f (xs ! j) \<noteq> i" by simp
qed

lemma distinct_count:
  "distinct (map f xs) \<Longrightarrow> length (filter (\<lambda>x. f x = i) xs) \<le> 1"
proof (induction xs)
  case Nil
  then show ?case by simp
next
  case (Cons x xs)
  show ?case
  proof (cases "f x = i")
    case True
    from Cons.prems have "f x \<notin> f ` set xs" by simp
    with True have "\<forall>y \<in> set xs. f y \<noteq> i" by (metis imageI)
    then have "filter (\<lambda>x. f x = i) xs = []" by (simp add: filter_none)
    with True show ?thesis by simp
  next
    case False
    with Cons show ?thesis by simp
  qed
qed

lemma map_update_same:
  "k < length xs \<Longrightarrow> f y = f (xs ! k) \<Longrightarrow> map f (xs[k := y]) = map f xs"
  by (simp add: map_update list_update_same_conv)

lemma classes_ok_upsertClass:
  assumes "classes_ok data" and "now1 e \<noteq> []"
  shows "classes_ok (upsertClass e i n data)"
proof (cases "findIndex (\<lambda>c. class_id c = i) (classes data)")
  case None
  then have "i \<notin> class_id ` set (classes data)" by (auto simp: findIndex_None)
  moreover from None have "classes (upsertClass e i n data) = classes data @
      [\<lparr>class_id = i, class_name = n, createdAt = Some (now1 e), class_updatedAt = now2 e\<rparr>]"
    by (simp add: upsertClass_def)
  ultimately show ?thesis
    using assms by (simp add: classes_ok_def)
next
  case (Some k)
  then have k: "k < length (classes data)" "class_id (classes data ! k) = i"
    by (simp_all add: findIndex_Some)
  define c where "c = (if truthy (createdAt (classes data ! k))
            then \<lparr>class_id = i, class_name = n,
                  createdAt = createdAt (classes data ! k), class_updatedAt = now1 e\<rparr>
            else \<lparr>class_id = i, class_name = n,
                  createdAt = Some (now1 e), class_updatedAt = now2 e\<rparr>)"
  have c: "class_id c = i" "truthy (createdAt c)"
    using assms(2) by (simp_all add: c_def)
  have m: "map class_id ((classes data)[k := c]) = map class_id (classes data)"
    using k c(1) by (intro map_update_same) simp_all
  have "truthy (createdAt x)" if "x \<in> set ((classes data)[k := c])" for x
  proof -
    from that set_update_subset_insert [of "classes data" k c]
    have "x = c \<or> x \<in> set (classes data)" by blast
    with assms(1) c(2) show ?thesis by (auto simp: classes_ok_def)
  qed
  then have t: "\<forall>x \<in> set ((classes data)[k := c]). truthy (createdAt x)" by blast
  have "classes (upsertClass e i n data) = (classes data)[k := c]"
    using Some by (simp add: upsertClass_def c_def)
  with m t assms(1) show ?thesis by (simp add: classes_ok_def)
qed

lemma classes_ok_cong: "classes d' = classes d \<Longrightarrow> classes_ok d' = classes_ok d"
  by (simp add: classes_ok_def)

lemma classes_kept:
  "classes (upsertStudent e i n r cn data) = classes data"
  "classes (upsertAttendance e body data) = classes data"
  "classes (deleteStudent i data) = classes data"
  "classes (deleteAttendance i data) = classes data"
  by (simp_all add: upsertStudent_def upsertAttendance_def deleteStudent_def
        deleteAttendance_def Let_def split: option.splits)

lemma classes_ok_deleteClass: "classes_ok data \<Longrightarrow> classes_ok (deleteClass i data)"
  by (simp add: deleteClass_def Let_def classes_ok_def distinct_map_filter
        split: option.splits)

lemma classes_ok_plan:
  assumes "classes_ok data" and "now1 e \<noteq> []" and "snd (plan e req data) = Some (d, m)"
  shows "classes_ok d"
proof (cases req)
  case (PostClass body)
  have "snd (plan e (PostClass body) data) = None
        \<or> fst (the (snd (plan e (PostClass body) data)))
            = upsertClass e (str (b_id body)) (str (b_name body)) data"
    by (simp add: Let_def)
  note t = this
  note s = assms(3) [unfolded PostClass]
  from t [unfolded s] have "d = upsertClass e (str (b_id body)) (str (b_name body)) data" by simp
  with assms(1,2) show ?thesis by (simp add: classes_ok_upsertClass)
next
  case (DeleteClass i)
  from assms(3) [unfolded DeleteClass] have "d = deleteClass i data" by simp
  with assms(1) show ?thesis by (simp add: classes_ok_deleteClass)
next
  case (PostStudent body)
  have "snd (plan e (PostStudent body) data) = None
        \<or> classes (fst (the (snd (plan e (PostStudent body) data)))) = classes data"
    by (simp add: Let_def classes_kept)
  note t = this
  note s = assms(3) [unfolded PostStudent]
  from t [unfolded s] have "classes d = classes data" by simp
  from classes_ok_cong [OF this] assms(1) show ?thesis by simp
next
  case (DeleteStudent i)
  from assms(3) [unfolded DeleteStudent] have "classes d = classes data"
    by (auto simp: classes_kept)
  from classes_ok_cong [OF this] assms(1) show ?thesis by simp
next
  case (PostAttendance body)
  have "snd (plan e (PostAttendance body) data) = None
        \<or> classes (fst (the (snd (plan e (PostAttendance body) data)))) = classes data"
    by (simp add: Let_def classes_kept)
  note t = this
  note s = assms(3) [unfolded PostAttendance]
  from t [unfolded s] have "classes d = classes data" by simp
  from classes_ok_cong [OF this] assms(1) show ?thesis by simp
next
  case (DeleteAttendance i)
  from assms(3) [unfolded DeleteAttendance] have "classes d = classes data"
    by (auto simp: classes_kept)
  from classes_ok_cong [OF this] assms(1) show ?thesis by simp
qed

lemma classes_ok_loaded:
  "stored_ok w \<Longrightarrow> classes_ok (fst (readData e w))"
  by (simp add: readData_unfold stored_ok_def classes_ok_def initialData_def
        split: file_state.splits)

lemma stored_ok_kept:
  assumes "stored_ok w" and "now1 e \<noteq> []"
  shows "stored_ok (snd (handle_request e req w))"
proof -
  obtain data w1 where r: "readData e w = (data, w1)" by (cases "readData e w")
  have d: "classes_ok data" using classes_ok_loaded [OF assms(1), of e] r by simp
  have w1: "stored_ok w1"
    using assms(1) r
    by (auto simp: readData_unfold stored_ok_def classes_ok_def initialData_def log_def
          split: file_state.splits if_splits)
  show ?thesis
  proof (cases "snd (plan e req data)")
    case None
    then have "carry_out e (plan e req data) w1 = (fst (plan e req data), w1)"
      by (cases "plan e req data") (simp add: carry_out_def)
    with r w1 show ?thesis by (simp add: handle_request_plan)
  next
    case (Some dm)
    obtain d' m where dm: "dm = (d', m)" by (cases dm)
    with Some have "classes_ok d'" using classes_ok_plan [OF d assms(2)] by simp
    moreover from Some dm
    have "carry_out e (plan e req data) w1 = (fst (plan e req data), committed e d' m w1)"
      by (cases "plan e req data") (simp add: carry_out_def)
    ultimately show ?thesis
      using r w1 by (simp add: handle_request_plan committed_def stored_ok_def)
  qed
qed

lemma upsertClass_in_place:
  assumes "classes_ok data" and "k < length (classes data)"
    and "class_id (classes data ! k) = i"
  shows "classes (upsertClass e i n data) = (classes data)[k :=
           \<lparr>class_id = i, class_name = n, createdAt = createdAt (classes data ! k),
             class_updatedAt = now1 e\<rparr>]"
proof -
  from assms have f: "\<forall>j < k. class_id (classes data ! j) \<noteq> i"
    by (intro distinct_first) (simp_all add: classes_ok_def)
  from assms have "truthy (createdAt (classes data ! k))"
    by (simp add: classes_ok_def)
  with upsertClass_existing [OF assms(2,3) f, of e n] show ?thesis by simp
qed

lemma count_id_ok:
  assumes "classes_ok data"
  shows "count_id i (classes (upsertClass e i n data)) = 1"
proof -
  from assms have "count_id i (classes data) \<le> 1"
    unfolding count_id_def by (intro distinct_count) (simp add: classes_ok_def)
  then show ?thesis by (simp add: count_id_upsertClass)
qed

lemma doc0_ok: "classes_ok doc0"
  by (simp add: classes_ok_def doc0_def grade5_def grade6_def)

subsection \<open>The keys of a summary\<close>

lemma insert_key_plain: "array_index k = None \<Longrightarrow> insert_key k ks = ks @ [k]"
  by (induction ks) auto

lemma map_fst_put_new: "map fst (put_new k v ps) = insert_key k (map fst ps)"
  by (induction ps) (auto split: option.splits)

lemma set_insert_key: "set (insert_key k ks) = insert k (set ks)"
  by (induction ks) (auto split: option.splits)

lemma distinct_insert_key: "k \<notin> set ks \<Longrightarrow> distinct ks \<Longrightarrow> distinct (insert_key k ks)"
  by (induction ks) (auto simp: set_insert_key split: option.splits)

lemma key_order_snoc:
  "key_order (ks @ [k])
     = (if k \<in> set (key_order ks) then key_order ks else insert_key k (key_order ks))"
  by (simp add: key_order_def)

lemma set_key_order: "set (key_order ks) = set ks"
  by (induction ks rule: rev_induct) (auto simp: key_order_snoc set_insert_key, simp add: key_order_def)

lemma distinct_key_order: "distinct (key_order ks)"
  by (induction ks rule: rev_induct)
     (auto simp: key_order_snoc distinct_insert_key, simp add: key_order_def)

lemma put_new_keyed:
  "k \<notin> set ks \<Longrightarrow>
     put_new k v (map (\<lambda>x. (x, f x)) ks)
       = map (\<lambda>x. (x, if x = k then v else f x)) (insert_key k ks)"
  by (induction ks) (auto split: option.splits)

lemma set_own_put_new:
  "k \<notin> fst ` set ps \<Longrightarrow> set_own k v (put_new k v0 ps) = put_new k v ps"
  by (induction ps) (auto split: option.splits)

lemma js_group_by_snoc_new:
  assumes "key y \<notin> key ` set xs"
  shows "js_group_by key inner (xs @ [y])
           = put_new (key y) (inner [y]) (js_group_by key inner xs)"
proof -
  have e: "filter (\<lambda>x. key x = key y) xs = []"
    using assms by (auto simp: filter_empty_conv image_iff)
  have n: "key y \<notin> set (key_order (map key xs))"
    using assms by (simp add: set_key_order)
  show ?thesis
    unfolding js_group_by_def
    using n e by (simp add: key_order_snoc put_new_keyed)
qed

lemma js_group_by_snoc_old:
  assumes "key y \<in> key ` set xs"
  shows "js_group_by key inner (xs @ [y])
           = set_own (key y) (inner ([x \<leftarrow> xs. key x = key y] @ [y]))
               (js_group_by key inner xs)"
proof -
  have n: "key y \<in> set (key_order (map key xs))"
    using assms by (simp add: set_key_order)
  show ?thesis
    unfolding js_group_by_def
    using n by (simp add: key_order_snoc set_own_keyed distinct_key_order)
qed

lemma map_of_js_group_by:
  "map_of (js_group_by key inner xs) k
     = (if k \<in> key ` set xs then Some (inner [x \<leftarrow> xs. key x = k]) else None)"
  by (simp add: js_group_by_def map_of_keyed set_key_order)

lemma map_fst_js_group_by: "map fst (js_group_by key inner ys) = key_order (map key ys)"
  by (simp add: js_group_by_def comp_def)

lemma js_group_by_single: "js_group_by key inner [y] = [(key y, inner [y])]"
  by (simp add: js_group_by_def key_order_def)

lemma in_group_clean:
  assumes "\<not> visible R (prayer r)"
  shows "in_group r (js_group_by prayer (\<lambda>rs. rs) ys) S R
           = (Inr (set_own (date r) (js_group_by prayer (\<lambda>rs. rs) (ys @ [r])) S), R)"
proof (cases "prayer r \<in> prayer ` set ys")
  case True
  then show ?thesis
    by (simp add: in_group_def map_of_js_group_by js_group_by_snoc_old)
next
  case False
  with assms show ?thesis
    by (simp add: in_group_def map_of_js_group_by js_group_by_snoc_new visible_def)
qed

lemma group_record_clean:
  assumes "\<not> visible R (date r)" and "\<not> visible R (prayer r)"
  shows "group_record eng r (js_grouped ys) R = (Inr (js_grouped (ys @ [r])), R)"
proof (cases "date r \<in> date ` set ys")
  case True
  then show ?thesis
    by (simp add: group_record_def js_grouped_def map_of_js_group_by
          in_group_clean [OF assms(2)] js_group_by_snoc_old)
next
  case False
  have p: "date r \<noteq> ''__proto__''"
    using assms(1) by (auto simp: visible_def inherited_def)
  have k: "date r \<notin> fst ` set (js_grouped ys)"
    using False by (simp add: js_grouped_def js_group_by_def set_key_order image_comp comp_def)
  have "in_group r [] (put_new (date r) [] (js_grouped ys)) R
          = (Inr (put_new (date r) (js_group_by prayer (\<lambda>rs. rs) [r]) (js_grouped ys)), R)"
    using in_group_clean [OF assms(2), of "[]" "put_new (date r) [] (js_grouped ys)"] k
    by (simp add: js_group_by_def [of _ _ "[]"] key_order_def set_own_put_new)
  with False p assms(1) show ?thesis
    by (simp add: group_record_def map_of_js_group_by js_grouped_def visible_def
        js_group_by_snoc_new)
qed

lemma summarize_from_clean:
  "\<forall>r \<in> set xs. \<not> visible R (date r) \<and> \<not> visible R (prayer r) \<Longrightarrow>
     summarize_from eng xs (js_grouped ys) R = (Inr (js_grouped (ys @ xs)), R)"
proof (induction xs arbitrary: ys)
  case Nil
  then show ?case by simp
next
  case (Cons r xs)
  then have "group_record eng r (js_grouped ys) R = (Inr (js_grouped (ys @ [r])), R)"
    by (simp add: group_record_clean)
  with Cons.IH [of "ys @ [r]"] Cons.prems show ?case by simp
qed

lemma summarize_clean:
  "\<forall>r \<in> set xs. \<not> visible R (date r) \<and> \<not> visible R (prayer r) \<Longrightarrow>
     summarize eng xs R = (Inr (js_grouped xs), R)"
  using summarize_from_clean [of xs R eng "[]"]
  by (simp add: summarize_def js_grouped_def js_group_by_def key_order_def)

lemma insert_key_append:
  assumes "array_index k = Some n" and "\<forall>x \<in> set I. is_index x" and "\<forall>x \<in> set N. \<not> is_index x"
  shows "insert_key k (I @ N) = insert_key k I @ N"
  using assms
proof (induction I)
  case Nil
  then show ?case by (cases N) (auto simp: is_index_def)
next
  case (Cons a I)
  then show ?case by (auto simp: is_index_def split: option.splits)
qed

lemma sorted_insert_key:
  assumes "array_index k = Some n" and "\<forall>x \<in> set I. is_index x"
    and "sorted (map index_value I)"
  shows "sorted (map index_value (insert_key k I))"
  using assms
proof (induction I)
  case Nil
  then show ?case by simp
next
  case (Cons a I)
  then show ?case
    by (auto simp: is_index_def index_value_def set_insert_key split: option.splits)
qed

lemma filter_plain_insert_key:
  "filter (\<lambda>k. \<not> is_index k) (insert_key k ks)
     = (if is_index k then filter (\<lambda>k. \<not> is_index k) ks
        else filter (\<lambda>k. \<not> is_index k) ks @ [k])"
  by (induction ks) (auto simp: is_index_def split: option.splits)

lemma js_order_split:
  assumes "\<forall>x \<in> set I. is_index x" and "\<forall>x \<in> set N. \<not> is_index x"
  shows "filter is_index (I @ N) = I" and "filter (\<lambda>k. \<not> is_index k) (I @ N) = N"
  using assms by (simp_all add: filter_id_conv filter_empty_conv)

lemma js_order_key_order: "js_order ks (key_order ks)"
proof (induction ks rule: rev_induct)
  case Nil
  then show ?case by (simp add: js_order_def key_order_def)
next
  case (snoc k ks)
  let ?out = "key_order ks"
  define I where "I = filter is_index ?out"
  define N where "N = filter (\<lambda>k. \<not> is_index k) ?out"
  have out: "?out = I @ N"
    using snoc unfolding js_order_def I_def N_def by blast
  have so: "sorted (map index_value I)"
    using snoc unfolding js_order_def I_def by blast
  have fs: "N = filter (\<lambda>k. \<not> is_index k) (first_seen ks)"
    using snoc unfolding js_order_def N_def by blast
  have I: "\<forall>x \<in> set I. is_index x" and N: "\<forall>x \<in> set N. \<not> is_index x"
    by (simp_all add: I_def N_def)
  have d: "distinct ?out" and s: "set ?out = set ks"
    by (simp_all add: distinct_key_order set_key_order)
  show ?case
  proof (cases "k \<in> set ks")
    case True
    then have "key_order (ks @ [k]) = ?out" and "first_seen (ks @ [k]) = first_seen ks"
      and "set (ks @ [k]) = set ks"
      using s by (auto simp: key_order_snoc first_seen_snoc)
    with snoc show ?thesis
      unfolding js_order_def by metis
  next
    case False
    then have ko: "key_order (ks @ [k]) = insert_key k ?out"
      using s by (simp add: key_order_snoc)
    have 1: "distinct (insert_key k ?out)"
      using False s d by (simp add: distinct_insert_key)
    have 2: "set (insert_key k ?out) = set (ks @ [k])"
      using s by (simp add: set_insert_key)
    have f: "first_seen (ks @ [k]) = first_seen ks @ [k]"
      using False by (simp add: first_seen_snoc)
    show ?thesis
    proof (cases "array_index k")
      case None
      then have n: "\<not> is_index k" by (simp add: is_index_def)
      have e: "insert_key k ?out = I @ (N @ [k])"
        using None by (simp add: insert_key_plain out)
      have N': "\<forall>x \<in> set (N @ [k]). \<not> is_index x"
        using N n by simp
      have "filter is_index (insert_key k ?out) = I"
        and "filter (\<lambda>k. \<not> is_index k) (insert_key k ?out) = N @ [k]"
        unfolding e using js_order_split [OF I N'] by blast+
      moreover have "filter (\<lambda>k. \<not> is_index k) (first_seen (ks @ [k])) = N @ [k]"
        using n fs by (simp add: f)
      ultimately show ?thesis
        unfolding ko js_order_def using 1 2 e so by simp
    next
      case (Some n)
      then have i: "is_index k" by (simp add: is_index_def)
      have e: "insert_key k ?out = insert_key k I @ N"
        unfolding out using Some I N by (rule insert_key_append)
      have I': "\<forall>x \<in> set (insert_key k I). is_index x"
        using I i by (simp add: set_insert_key)
      have "filter is_index (insert_key k ?out) = insert_key k I"
        and "filter (\<lambda>k. \<not> is_index k) (insert_key k ?out) = N"
        unfolding e using js_order_split [OF I' N] by blast+
      moreover have "filter (\<lambda>k. \<not> is_index k) (first_seen (ks @ [k])) = N"
        using i fs by (simp add: f)
      moreover have "sorted (map index_value (insert_key k I))"
        using Some I so by (rule sorted_insert_key)
      ultimately show ?thesis
        unfolding ko js_order_def using 1 2 e by simp
    qed
  qed
qed

lemma key_order_plain:
  "\<forall>k \<in> set ks. array_index k = None \<Longrightarrow> key_order ks = first_seen ks"
proof (induction ks rule: rev_induct)
  case Nil
  then show ?case by (simp add: key_order_def)
next
  case (snoc k ks)
  then show ?case
    by (simp add: key_order_snoc first_seen_snoc set_first_seen insert_key_plain)
qed

lemma js_group_by_plain:
  "\<forall>x \<in> set xs. array_index (key x) = None \<Longrightarrow> js_group_by key inner xs = group_by key inner xs"
  by (simp add: js_group_by_def group_by_def key_order_plain)

lemma js_grouped_plain:
  assumes "\<forall>r \<in> set xs. array_index (date r) = None \<and> array_index (prayer r) = None"
  shows "js_grouped xs = grouped xs"
proof -
  have "js_group_by prayer (\<lambda>rs. rs) [x \<leftarrow> xs. date x = k]
          = group_by prayer (\<lambda>rs. rs) [x \<leftarrow> xs. date x = k]" for k
    using assms by (intro js_group_by_plain) simp
  then have "js_grouped xs = js_group_by date (group_by prayer (\<lambda>rs. rs)) xs"
    by (simp add: js_grouped_def js_group_by_def)
  also have "\<dots> = grouped xs"
    using assms by (simp add: grouped_def js_group_by_plain)
  finally show ?thesis .
qed

lemma chosen_when_given:
  "\<not> visible R name \<Longrightarrow> chosen eng R name q field xs = when_given q field xs"
  by (cases q) (auto simp: chosen_def query_field_def when_given_def visible_def)

lemma get_summary_eq:
  "readData e w = (data, w1) \<Longrightarrow>
     get_summary eng e q_date q_className R w
       = (fst (summarize eng (chosen eng R ''className'' q_className att_className
                 (chosen eng R ''date'' q_date date (attendance data))) R),
          snd (summarize eng (chosen eng R ''className'' q_className att_className
                 (chosen eng R ''date'' q_date date (attendance data))) R), w1)"
  by (simp add: get_summary_def split_beta)

lemma visible_pristine: "visible pristine k = inherited k"
  by (simp add: visible_def pristine_def)

lemma example_index: "array_index ''2024-01-01'' = None" "array_index ''2024-01-02'' = None"
  "array_index ''fajr'' = None" "array_index ''dhuhr'' = None"
  "array_index ''20240102'' = Some 20240102" "array_index ''20240101'' = Some 20240101"
  by (simp_all add: array_index_def digit_value_def max_length_def)

lemma example_inherited: "\<not> inherited ''2024-01-01''" "\<not> inherited ''2024-01-02''"
  "\<not> inherited ''fajr''" "\<not> inherited ''dhuhr''" "\<not> inherited ''20240102''"
  "\<not> inherited ''20240101''" "\<not> inherited ''status''" "inherited ''__proto__''"
  by (simp_all add: inherited_def)

lemma example_unfiltered:
  "[rec1, rec2, rec3] = chosen engine0 pristine ''className'' None att_className
     (chosen engine0 pristine ''date'' None date (attendance doc0))"
  by (simp add: chosen_def query_field_def pristine_def doc0_def)

lemma example_clean:
  "\<forall>r \<in> set [rec1, rec2, rec3]. \<not> visible pristine (date r) \<and> \<not> visible pristine (prayer r)"
  by (simp add: visible_pristine example_fields example_inherited)

lemma example_js_grouped: "js_grouped [rec1, rec2, rec3]
             = [(''2024-01-01'', [(''fajr'', [rec1, rec2])]),
                (''2024-01-02'', [(''dhuhr'', [rec3])])]"
proof -
  have "\<forall>r \<in> set [rec1, rec2, rec3]. array_index (date r) = None \<and> array_index (prayer r) = None"
    by (simp add: example_fields example_index)
  then show ?thesis
    by (simp only: js_grouped_plain example_grouped)
qed

lemma order_fields: "date late = ''20240102''" "date early = ''20240101''"
  "prayer late = ''fajr''" "prayer early = ''fajr''"
  by (simp_all add: late_def early_def rec1_def rec2_def)

subsection \<open>What a summary leaves on the built-in objects\<close>

lemma smuggled_fields: "date smuggled = ''__proto__''" "prayer smuggled = ''fajr''"
  "date unvetted = ''__proto__''" "prayer unvetted = ''status''"
  by (simp_all add: smuggled_def unvetted_def rec1_def rec2_def)

lemma summary_reaches_prototype:
  "get_summary engine0 env0 None None pristine (world0\<lparr>disk := Stored (doc0\<lparr>attendance := [smuggled, unvetted]\<rparr>)\<rparr>)
     = (Inr [], soiled, world0\<lparr>disk := Stored (doc0\<lparr>attendance := [smuggled, unvetted]\<rparr>)\<rparr>)"
  "visible soiled ''fajr''" "visible soiled ''status''"
proof -
  let ?w = "world0\<lparr>disk := Stored (doc0\<lparr>attendance := [smuggled, unvetted]\<rparr>)\<rparr>"
  have r: "readData env0 ?w = (doc0\<lparr>attendance := [smuggled, unvetted]\<rparr>, ?w)"
    by (simp add: readData_unfold)
  have c: "chosen engine0 pristine ''className'' None att_className
             (chosen engine0 pristine ''date'' None date [smuggled, unvetted]) = [smuggled, unvetted]"
    by (simp add: chosen_def query_field_def pristine_def)
  have 1: "group_record engine0 smuggled [] pristine
             = (Inr [], pristine\<lparr>object_prototype :=
                  [(''fajr'', \<lparr>arr_length = 1, elements = [(0, Item smuggled)], named = []\<rparr>)]\<rparr>)"
    by (simp add: group_record_def on_object_prototype_def smuggled_fields example_inherited
          pristine_def)
  have 2: "group_record engine0 unvetted []
             (pristine\<lparr>object_prototype :=
                  [(''fajr'', \<lparr>arr_length = 1, elements = [(0, Item smuggled)], named = []\<rparr>)]\<rparr>)
             = (Inr [], soiled)"
    by (simp add: group_record_def on_object_prototype_def smuggled_fields example_inherited
          pristine_def soiled_def)
  have "summarize engine0 [smuggled, unvetted] pristine = (Inr [], soiled)"
    using 1 2 by (simp add: summarize_def)
  then show "get_summary engine0 env0 None None pristine ?w = (Inr [], soiled, ?w)"
    using r c by (simp add: get_summary_eq)
  show "visible soiled ''fajr''" "visible soiled ''status''"
    by (simp_all add: visible_def soiled_def)
qed

lemma summary_loses_groups:
  "fst (get_summary engine0 env0 None None soiled world0)
     = Inr [(''2024-01-01'', []), (''2024-01-02'', [(''dhuhr'', [rec3])])]"
  "map_of (object_prototype (fst (snd (get_summary engine0 env0 None None soiled world0)))) ''fajr''
     = Some \<lparr>arr_length = 3, elements = [(0, Item smuggled), (1, Item rec1), (2, Item rec2)],
              named = []\<rparr>"
proof -
  let ?F1 = "\<lparr>arr_length = 1, elements = [(0, Item smuggled)], named = []\<rparr>"
  let ?F2 = "\<lparr>arr_length = 2, elements = [(0, Item smuggled), (1, Item rec1)], named = []\<rparr>"
  let ?F3 = "\<lparr>arr_length = 3, elements = [(0, Item smuggled), (1, Item rec1), (2, Item rec2)],
              named = []\<rparr>"
  let ?S = "\<lparr>arr_length = 1, elements = [(0, Item unvetted)], named = []\<rparr>"
  let ?R = "\<lambda>F. pristine\<lparr>object_prototype := [(''fajr'', F), (''status'', ?S)]\<rparr>"
  have c: "chosen engine0 soiled ''className'' None att_className
             (chosen engine0 soiled ''date'' None date (attendance doc0)) = [rec1, rec2, rec3]"
    by (simp add: chosen_def query_field_def soiled_def doc0_def)
  have 1: "group_record engine0 rec1 [] (?R ?F1) = (Inr [(''2024-01-01'', [])], ?R ?F2)"
    by (simp add: group_record_def in_group_def push_shared_def push_item_def max_length_def
          example_fields example_inherited example_index)
  have 2: "group_record engine0 rec2 [(''2024-01-01'', [])] (?R ?F2)
             = (Inr [(''2024-01-01'', [])], ?R ?F3)"
    by (simp add: group_record_def in_group_def push_shared_def push_item_def max_length_def
          example_fields example_inherited example_index)
  have 3: "group_record engine0 rec3 [(''2024-01-01'', [])] (?R ?F3)
             = (Inr [(''2024-01-01'', []), (''2024-01-02'', [(''dhuhr'', [rec3])])], ?R ?F3)"
    by (simp add: group_record_def in_group_def example_fields example_inherited example_index)
  have s: "soiled = ?R ?F1"
    by (simp add: soiled_def)
  have "summarize engine0 [rec1, rec2, rec3] soiled
          = (Inr [(''2024-01-01'', []), (''2024-01-02'', [(''dhuhr'', [rec3])])], ?R ?F3)"
    unfolding s using 1 2 3 by (simp add: summarize_def)
  then show "fst (get_summary engine0 env0 None None soiled world0)
     = Inr [(''2024-01-01'', []), (''2024-01-02'', [(''dhuhr'', [rec3])])]"
    and "map_of (object_prototype (fst (snd (get_summary engine0 env0 None None soiled world0))))
           ''fajr'' = Some ?F3"
    using c by (simp_all add: get_summary_eq [OF readData_world0])
qed

lemma summary_on_builtins:
  "summarize engine0 [rec1\<lparr>prayer := ''toString''\<rparr>] pristine = (Inl TypeError, pristine)"
  "summarize engine0 [rec1\<lparr>date := ''constructor''\<rparr>] pristine
     = (Inr [], pristine\<lparr>function_props := [((''constructor'', ''fajr''),
                                                 [rec1\<lparr>date := ''constructor''\<rparr>])]\<rparr>)"
  "summarize engine0 [rec1\<lparr>date := ''constructor'', prayer := ''keys''\<rparr>] pristine
     = (Inl TypeError, pristine)"
  "summarize engine0 [rec1\<lparr>date := ''fajr'', prayer := ''7''\<rparr>] soiled
     = (Inr [], soiled\<lparr>object_prototype :=
          [(''fajr'', \<lparr>arr_length = 8,
                       elements = [(0, Item smuggled),
                                   (7, Inner [rec1\<lparr>date := ''fajr'', prayer := ''7''\<rparr>])],
                       named = []\<rparr>),
           (''status'', \<lparr>arr_length = 1, elements = [(0, Item unvetted)], named = []\<rparr>)]\<rparr>)"
  "summarize engine0 [rec1\<lparr>date := ''fajr'', prayer := ''0''\<rparr>] soiled = (Inl TypeError, soiled)"
  "summarize engine0 [rec1\<lparr>date := ''fajr'', prayer := ''__proto__''\<rparr>] soiled
     = (Inr [], soiled\<lparr>array_prototype :=
          \<lparr>arr_length = 1,
            elements = [(0, Item (rec1\<lparr>date := ''fajr'', prayer := ''__proto__''\<rparr>))],
            named = []\<rparr>\<rparr>)"
proof -
  have i: "array_index ''7'' = Some 7" "array_index ''0'' = Some 0"
    "array_index ''__proto__'' = None" "array_index ''toString'' = None"
    by (simp_all add: array_index_def digit_value_def max_length_def)
  show "summarize engine0 [rec1\<lparr>prayer := ''toString''\<rparr>] pristine = (Inl TypeError, pristine)"
    by (simp add: summarize_def group_record_def in_group_def rec1_def inherited_def
          pristine_def)
  show "summarize engine0 [rec1\<lparr>date := ''constructor''\<rparr>] pristine
     = (Inr [], pristine\<lparr>function_props := [((''constructor'', ''fajr''),
                                                 [rec1\<lparr>date := ''constructor''\<rparr>])]\<rparr>)"
    by (simp add: summarize_def group_record_def on_function_def rec1_def inherited_def
          pristine_def engine0_def)
  show "summarize engine0 [rec1\<lparr>date := ''constructor'', prayer := ''keys''\<rparr>] pristine
     = (Inl TypeError, pristine)"
    by (simp add: summarize_def group_record_def on_function_def rec1_def inherited_def
          pristine_def engine0_def)
  show "summarize engine0 [rec1\<lparr>date := ''fajr'', prayer := ''7''\<rparr>] soiled
     = (Inr [], soiled\<lparr>object_prototype :=
          [(''fajr'', \<lparr>arr_length = 8,
                       elements = [(0, Item smuggled),
                                   (7, Inner [rec1\<lparr>date := ''fajr'', prayer := ''7''\<rparr>])],
                       named = []\<rparr>),
           (''status'', \<lparr>arr_length = 1, elements = [(0, Item unvetted)], named = []\<rparr>)]\<rparr>)"
    by (simp add: summarize_def group_record_def on_array_def own_cell_def put_cell_def i
          inherited_def soiled_def pristine_def engine0_def)
  show "summarize engine0 [rec1\<lparr>date := ''fajr'', prayer := ''0''\<rparr>] soiled
          = (Inl TypeError, soiled)"
    by (simp add: summarize_def group_record_def on_array_def own_cell_def i
          inherited_def soiled_def pristine_def engine0_def)
  show "summarize engine0 [rec1\<lparr>date := ''fajr'', prayer := ''__proto__''\<rparr>] soiled
     = (Inr [], soiled\<lparr>array_prototype :=
          \<lparr>arr_length = 1,
            elements = [(0, Item (rec1\<lparr>date := ''fajr'', prayer := ''__proto__''\<rparr>))],
            named = []\<rparr>\<rparr>)"
    by (simp add: summarize_def group_record_def on_array_def own_cell_def push_item_def i
          max_length_def inherited_def soiled_def pristine_def engine0_def)
qed

subsection \<open>The result of a write\<close>

lemma upsert_write_torn:
  "upsertClass (e\<lparr>write_torn := b\<rparr>) i n data = upsertClass e i n data"
  "upsertStudent (e\<lparr>write_torn := b\<rparr>) i n r cn data = upsertStudent e i n r cn data"
  "upsertAttendance (e\<lparr>write_torn := b\<rparr>) body data = upsertAttendance e body data"
  by (simp_all add: upsertClass_def upsertStudent_def upsertAttendance_def
        cong: option.case_cong if_cong)

lemma plan_write_torn: "plan (e\<lparr>write_torn := b\<rparr>) req data = plan e req data"
  by (cases req) (simp_all add: upsert_write_torn)

lemma readData_write_torn:
  "readData (e\<lparr>write_torn := b\<rparr>) w = readData e w"
  by (simp add: readData_unfold)

lemma write_result_ignored:
  "fst (handle_request (e\<lparr>write_ok := b, write_torn := t\<rparr>) req w) = fst (handle_request e req w)"
  "serialized (trace (snd (handle_request (e\<lparr>write_ok := b, write_torn := t\<rparr>) req w)))
     = serialized (trace (snd (handle_request e req w)))"
  "delivered (trace (snd (handle_request (e\<lparr>write_ok := b, write_torn := t\<rparr>) req w)))
     = delivered (trace (snd (handle_request e req w)))"
proof -
  let ?e = "e\<lparr>write_ok := b, write_torn := t\<rparr>"
  obtain data w1 where r: "readData e w = (data, w1)" by (cases "readData e w")
  then have r': "readData ?e w = (data, w1)"
    by (simp add: readData_write_ok readData_write_torn)
  have p: "plan ?e req data = plan e req data"
    by (simp add: plan_write_ok plan_write_torn)
  have h: "handle_request e req w = carry_out e (plan e req data) w1"
    using r by (rule handle_request_plan)
  have h': "handle_request ?e req w = carry_out ?e (plan e req data) w1"
    using handle_request_plan [OF r', of req] by (simp only: p)
  show "fst (handle_request ?e req w) = fst (handle_request e req w)"
    unfolding h h' by (simp add: fst_carry_out)
  show "serialized (trace (snd (handle_request ?e req w)))
     = serialized (trace (snd (handle_request e req w)))"
    unfolding h h' by (simp add: carry_out_serialized)
  show "delivered (trace (snd (handle_request ?e req w)))
     = delivered (trace (snd (handle_request e req w)))"
    unfolding h h' by (simp add: carry_out_delivered cong: option.case_cong prod.case_cong)
qed

section \<open>The claims\<close>

subsection \<open>C1\<close>

text \<open>
  C1. Let the stored document be one of the data model: no two classes share an id and
  every class carries a non-empty \<^verbatim>\<open>createdAt\<close> (\<open>classes_ok\<close>, which the initial document
  satisfies and every route preserves, \<open>stored_ok_kept\<close>). For every class payload whose id
  and name are non-empty, \<^verbatim>\<open>POST /api/classes\<close> hands exactly one document to
  \<^verbatim>\<open>writeData\<close>, which is what a later request loads when the write succeeds. In that
  document exactly one class has the id. If a class with the id existed, it is replaced at
  its position by a record with the new name, its original \<^verbatim>\<open>createdAt\<close> and a fresh
  \<^verbatim>\<open>updatedAt\<close>, and that record is the response; otherwise a record stamped with both
  times is appended and returned. Students and attendance are not touched and the result is
  again a document of the data model. A second upsert of the same id under another name
  replaces the entry in place once more: still exactly one class with the id, the same
  number of classes, the same \<^verbatim>\<open>createdAt\<close>.
\<close>
theorem upsert_class:
  assumes "truthy (b_id body)" and "truthy (b_name body)"
    and "i = str (b_id body)" and "n = str (b_name body)"
    and "readData e w = (data, w1)"
    and "classes_ok data" and "now1 e \<noteq> []"
  shows "written (trace (snd (post_classes e body w)))
           = written (trace w) @ [upsertClass e i n data]
       \<and> (write_ok e \<longrightarrow>
            fst (readData e2 (snd (post_classes e body w))) = upsertClass e i n data)
       \<and> count_id i (classes (upsertClass e i n data)) = 1
       \<and> (\<forall>k. k < length (classes data) \<and> class_id (classes data ! k) = i \<longrightarrow>
              classes (upsertClass e i n data) = (classes data)[k :=
                \<lparr>class_id = i, class_name = n, createdAt = createdAt (classes data ! k),
                  class_updatedAt = now1 e\<rparr>]
              \<and> fst (post_classes e body w) = Json (ClassData
                \<lparr>class_id = i, class_name = n, createdAt = createdAt (classes data ! k),
                  class_updatedAt = now1 e\<rparr>))
       \<and> (i \<notin> class_id ` set (classes data) \<longrightarrow>
              classes (upsertClass e i n data) = classes data @
                [\<lparr>class_id = i, class_name = n, createdAt = Some (now1 e),
                  class_updatedAt = now2 e\<rparr>]
              \<and> fst (post_classes e body w) = Json (ClassData
                \<lparr>class_id = i, class_name = n, createdAt = Some (now1 e),
                  class_updatedAt = now2 e\<rparr>))
       \<and> students (upsertClass e i n data) = students data
       \<and> attendance (upsertClass e i n data) = attendance data
       \<and> classes_ok (upsertClass e i n data)
       \<and> count_id i (classes (upsertClass e' i n' (upsertClass e i n data))) = 1
       \<and> length (classes (upsertClass e' i n' (upsertClass e i n data)))
           = length (classes (upsertClass e i n data))
       \<and> (\<forall>k. k < length (classes (upsertClass e i n data))
                \<and> class_id (classes (upsertClass e i n data) ! k) = i \<longrightarrow>
              classes (upsertClass e' i n' (upsertClass e i n data))
                = (classes (upsertClass e i n data))[k :=
                    \<lparr>class_id = i, class_name = n',
                      createdAt = createdAt (classes (upsertClass e i n data) ! k),
                      class_updatedAt = now1 e'\<rparr>])"
proof -
  let ?d = "upsertClass e i n data"
  have ok: "classes_ok ?d"
    using assms(6,7) by (rule classes_ok_upsertClass)
  have resp: "fst (post_classes e body w)
                = Json (found (find (\<lambda>c. class_id c = i) (classes ?d)) ClassData)"
    using assms(1-5) by (simp add: post_classes_eq)
  have c1: "written (trace (snd (post_classes e body w))) = written (trace w) @ [?d]"
    using assms(1-5) by (simp add: post_classes_eq written_committed readData_written)
  have c2: "write_ok e \<longrightarrow> fst (readData e2 (snd (post_classes e body w))) = ?d"
    using assms(1-5) by (simp add: post_classes_eq readData_after_committed)
  have c3: "count_id i (classes ?d) = 1"
    using assms(6) by (rule count_id_ok)
  have c5: "classes ?d = (classes data)[k := c'] \<and> fst (post_classes e body w) = Json (ClassData c')"
    if k: "k < length (classes data)" "class_id (classes data ! k) = i"
      and c': "c' = \<lparr>class_id = i, class_name = n, createdAt = createdAt (classes data ! k),
                  class_updatedAt = now1 e\<rparr>"
    for k c'
  proof -
    have eq: "classes ?d = (classes data)[k := c']"
      using upsertClass_in_place [OF assms(6) k, of e n] c' by simp
    have f: "\<forall>j < k. class_id (classes data ! j) \<noteq> i"
      using assms(6) k by (intro distinct_first) (simp_all add: classes_ok_def)
    have "class_id c' = i" using c' by simp
    with k f have "find (\<lambda>c. class_id c = i) ((classes data)[k := c']) = Some c'"
      by (intro find_update_first) auto
    with eq resp show ?thesis by (simp add: found_def)
  qed
  have c6: "classes ?d = classes data @ [c'] \<and> fst (post_classes e body w) = Json (ClassData c')"
    if new: "i \<notin> class_id ` set (classes data)"
      and c': "c' = \<lparr>class_id = i, class_name = n, createdAt = Some (now1 e),
                  class_updatedAt = now2 e\<rparr>"
    for c'
  proof -
    have eq: "classes ?d = classes data @ [c']"
      using new c' upsertClass_new [of i data e n] by simp
    have "find (\<lambda>c. class_id c = i) (classes data @ [c']) = Some c'"
      using new c' by (intro find_append_new) auto
    with eq resp show ?thesis by (simp add: found_def)
  qed
  have c8: "count_id i (classes (upsertClass e' i n' ?d)) = 1"
    using ok by (rule count_id_ok)
  have c9: "length (classes (upsertClass e' i n' ?d)) = length (classes ?d)"
    using upsertClass_has_id [of i e n data] by (simp add: length_upsertClass)
  have c10: "classes (upsertClass e' i n' ?d) = (classes ?d)[k :=
                    \<lparr>class_id = i, class_name = n', createdAt = createdAt (classes ?d ! k),
                      class_updatedAt = now1 e'\<rparr>]"
    if "k < length (classes ?d)" "class_id (classes ?d ! k) = i" for k
    using upsertClass_in_place [OF ok that, of e' n'] .
  show ?thesis
    using c1 c2 c3 c5 c6 c8 c9 c10 ok upsertClass_frame [of e i n data] by blast
qed

theorem upsert_class_witness:
  "truthy (b_id body5) \<and> truthy (b_name body5)
   \<and> readData env0 world0 = (doc0, world0)
   \<and> classes_ok doc0 \<and> now1 env0 \<noteq> []
   \<and> classes (upsertClass env0 ''c5'' ''Grade 5A'' doc0)
       = [grade5\<lparr>class_name := ''Grade 5A'', class_updatedAt := now1 env0\<rparr>, grade6]
   \<and> fst (post_classes env0 body5 world0)
       = Json (ClassData (grade5\<lparr>class_name := ''Grade 5A'', class_updatedAt := now1 env0\<rparr>))
   \<and> count_id ''c5'' (classes (upsertClass env0 ''c5'' ''Grade 5A'' doc0)) = 1"
proof -
  have h: "truthy (b_id body5)" "truthy (b_name body5)"
    "''c5'' = str (b_id body5)" "''Grade 5A'' = str (b_name body5)"
    by (simp_all add: body5_def)
  have t: "now1 env0 \<noteq> []" by (simp add: env0_def)
  have k: "0 < length (classes doc0) \<and> class_id (classes doc0 ! 0) = ''c5''"
    by (simp add: doc0_def grade5_def)
  from upsert_class [where e = env0 and ?e2.0 = env0 and e' = env0 and n' = "''x''",
      OF h readData_world0 doc0_ok t] k
  have "classes (upsertClass env0 ''c5'' ''Grade 5A'' doc0) = (classes doc0)[0 :=
          \<lparr>class_id = ''c5'', class_name = ''Grade 5A'',
            createdAt = createdAt (classes doc0 ! 0), class_updatedAt = now1 env0\<rparr>]"
    and "fst (post_classes env0 body5 world0) = Json (ClassData
          \<lparr>class_id = ''c5'', class_name = ''Grade 5A'',
            createdAt = createdAt (classes doc0 ! 0), class_updatedAt = now1 env0\<rparr>)"
    and "count_id ''c5'' (classes (upsertClass env0 ''c5'' ''Grade 5A'' doc0)) = 1"
    by blast+
  then show ?thesis
    using h t doc0_ok by (simp add: readData_world0 doc0_def grade5_def)
qed

subsection \<open>C2\<close>

text \<open>
  C2. Let the loaded document hold a class with the given id, and let \<open>c\<close> be the one
  \<^verbatim>\<open>find\<close> returns (the first). Then \<^verbatim>\<open>DELETE /api/classes/:id\<close> hands exactly one
  document to \<^verbatim>\<open>writeData\<close>, and its students are the former students whose
  \<^verbatim>\<open>className\<close> differs from the name of \<open>c\<close>, in their former order: no student with
  an equal \<^verbatim>\<open>className\<close> is left, every student with a different one is kept whatever
  its id, and no class with the id is left. When the write succeeds this is the document
  later requests load.
\<close>
theorem delete_class_cascade:
  assumes "readData e w = (data, w1)"
    and "find (\<lambda>c. class_id c = i) (classes data) = Some c"
  shows "written (trace (snd (delete_classes e i w)))
           = written (trace w) @ [deleteClass i data]
       \<and> students (deleteClass i data)
           = [s \<leftarrow> students data. student_className s \<noteq> class_name c]
       \<and> [s \<leftarrow> students (deleteClass i data). student_className s = class_name c] = []
       \<and> (\<forall>s \<in> set (students data).
             student_className s \<noteq> class_name c \<longrightarrow> s \<in> set (students (deleteClass i data)))
       \<and> [x \<leftarrow> classes (deleteClass i data). class_id x = i] = []
       \<and> (write_ok e \<longrightarrow>
            fst (readData e2 (snd (delete_classes e i w))) = deleteClass i data)"
  using assms
  by (simp add: delete_classes_eq written_committed readData_written
        readData_after_committed deleteClass_def)

theorem delete_class_cascade_witness:
  "readData env0 world0 = (doc0, world0)
   \<and> find (\<lambda>c. class_id c = ''c5'') (classes doc0) = Some grade5
   \<and> written (trace (snd (delete_classes env0 ''c5'' world0)))
       = [\<lparr>classes = [grade6], students = [bilal], attendance = [rec1, rec2, rec3]\<rparr>]
   \<and> bilal \<in> set (students (deleteClass ''c5'' doc0))"
  using delete_class_cascade [of env0 world0 doc0 world0 "''c5''" grade5 env0]
  by (simp add: readData_world0 world0_simps deleteClass_def doc0_def grade5_def grade6_def
        ali_def bilal_def)

subsection \<open>C3\<close>

text \<open>
  C3. \<^verbatim>\<open>DELETE /api/students/:id\<close> hands exactly one document to \<^verbatim>\<open>writeData\<close>. In it
  no attendance record with that \<^verbatim>\<open>studentId\<close> is left, the records with another
  \<^verbatim>\<open>studentId\<close> are the former ones in their former order, and no student with the id
  is left: student and attendance records go in the same write. When the write succeeds
  this is the document later requests load.
\<close>
theorem delete_student_cascade:
  assumes "readData e w = (data, w1)"
  shows "written (trace (snd (delete_students e i w)))
           = written (trace w) @ [deleteStudent i data]
       \<and> [a \<leftarrow> attendance (deleteStudent i data). studentId a = i] = []
       \<and> [a \<leftarrow> attendance (deleteStudent i data). studentId a \<noteq> i]
           = [a \<leftarrow> attendance data. studentId a \<noteq> i]
       \<and> length (attendance (deleteStudent i data))
           = length (attendance data) - length [a \<leftarrow> attendance data. studentId a = i]
       \<and> [s \<leftarrow> students (deleteStudent i data). student_id s = i] = []
       \<and> (write_ok e \<longrightarrow>
            fst (readData e2 (snd (delete_students e i w))) = deleteStudent i data)"
proof -
  have len: "length [a \<leftarrow> attendance data. studentId a \<noteq> i]
               = length (attendance data) - length [a \<leftarrow> attendance data. studentId a = i]"
    using sum_length_filter_compl [of "\<lambda>a. studentId a = i" "attendance data"] by simp
  show ?thesis
    using assms len
    by (simp add: delete_students_eq written_committed readData_written
          readData_after_committed deleteStudent_def)
qed

theorem delete_student_cascade_witness:
  "readData env0 world0 = (doc0, world0)
   \<and> written (trace (snd (delete_students env0 ''s1'' world0)))
       = [\<lparr>classes = [grade5, grade6], students = [bilal], attendance = [rec2]\<rparr>]
   \<and> fst (readData env0 (snd (delete_students env0 ''s1'' world0)))
       = \<lparr>classes = [grade5, grade6], students = [bilal], attendance = [rec2]\<rparr>"
  using delete_student_cascade [of env0 world0 doc0 world0 "''s1''" env0]
  by (simp add: readData_world0 world0_simps deleteStudent_def doc0_def env0_def
        ali_def bilal_def rec1_def rec2_def rec3_def)

subsection \<open>C4\<close>

text \<open>
  C4. \<^verbatim>\<open>DELETE /api/classes/:id\<close> never changes the attendance collection: the one
  document it hands to \<^verbatim>\<open>writeData\<close> has the attendance of the loaded document, also
  the records whose \<^verbatim>\<open>className\<close> is the deleted class's name, and so has the document a
  later request loads, when the write succeeded and when it failed before the file was
  opened.
\<close>
theorem delete_class_keeps_attendance:
  assumes "readData e w = (data, w1)"
  shows "written (trace (snd (delete_classes e i w)))
           = written (trace w) @ [deleteClass i data]
       \<and> attendance (deleteClass i data) = attendance data
       \<and> (write_ok e \<or> \<not> write_torn e \<longrightarrow>
            attendance (fst (readData e2 (snd (delete_classes e i w)))) = attendance data)"
proof -
  have att: "attendance (deleteClass i data) = attendance data"
    by (simp add: deleteClass_def Let_def split: option.splits)
  have "attendance (fst (readData e2 (snd (delete_classes e i w)))) = attendance data"
    if "write_ok e \<or> \<not> write_torn e"
  proof (cases "write_ok e")
    case True
    with assms att show ?thesis
      by (simp add: delete_classes_eq readData_after_committed)
  next
    case False
    with assms that show ?thesis
      by (simp add: delete_classes_eq readData_committed_failed readData_again)
  qed
  with assms att show ?thesis
    by (simp add: delete_classes_eq written_committed readData_written)
qed

theorem delete_class_keeps_attendance_witness:
  "readData env0 world0 = (doc0, world0)
   \<and> att_className rec1 = class_name grade5
   \<and> attendance (fst (readData env0 (snd (delete_classes env0 ''c5'' world0))))
       = [rec1, rec2, rec3]"
proof -
  have ok: "write_ok env0 \<or> \<not> write_torn env0" by (simp add: env0_def)
  have "attendance (fst (readData env0 (snd (delete_classes env0 ''c5'' world0))))
          = attendance doc0"
    using delete_class_keeps_attendance [OF readData_world0, of env0 "''c5''" env0] ok
    by blast
  then show ?thesis
    by (simp add: readData_world0 doc0_def rec1_def grade5_def)
qed

subsection \<open>C5\<close>

text \<open>
  C5 (amended). Let \<open>xs\<close> be the attendance list after the optional filters on date and
  class name, and let no date and no prayer in \<open>xs\<close> name a property of
  \<^verbatim>\<open>Object.prototype\<close>, neither one of its own twelve nor one that an earlier summary has
  left there. Then \<^verbatim>\<open>GET /api/summary\<close> answers with \<open>js_grouped xs\<close> and leaves the
  built-in objects as they were: the response holds every date of \<open>xs\<close> once, under each
  date every prayer of its records once, and in each group the records of that date and
  prayer in the order they have in \<open>xs\<close>. Dates, and the prayers of a date, stand in the
  order JavaScript enumerates keys: those that are array indices first, in ascending numeric
  order, then the others in the order of their first appearance. When no date and no prayer
  is an array index, this is \<open>grouped xs\<close>, the grouping by first appearance that the
  specification describes. When \<^verbatim>\<open>Object.prototype\<close> has no property named \<^verbatim>\<open>date\<close> or
  \<^verbatim>\<open>className\<close>, \<open>xs\<close> is the list the two query parameters select.

  For every list, as the specification has it, the statement is false: the dates
  \<^verbatim>\<open>20240102\<close>, \<^verbatim>\<open>20240101\<close> come out as \<^verbatim>\<open>20240101\<close>, \<^verbatim>\<open>20240102\<close>. A record dated
  \<^verbatim>\<open>__proto__\<close> is missing from the response and leaves an array on \<^verbatim>\<open>Object.prototype\<close>,
  after which the records of that prayer are missing from every later summary
  (\<open>summary_reaches_prototype\<close>, \<open>summary_loses_groups\<close>).
\<close>
theorem summary_groups:
  assumes "readData e w = (data, w1)"
    and "xs = chosen eng R ''className'' q_className att_className
                (chosen eng R ''date'' q_date date (attendance data))"
    and "\<forall>r \<in> set xs. \<not> visible R (date r) \<and> \<not> visible R (prayer r)"
  shows "get_summary eng e q_date q_className R w = (Inr (js_grouped xs), R, w1)
       \<and> (\<not> visible R ''date'' \<and> \<not> visible R ''className'' \<longrightarrow>
            xs = when_given q_className att_className (when_given q_date date (attendance data)))
       \<and> js_order (map date xs) (map fst (js_grouped xs))
       \<and> (\<forall>d \<in> date ` set xs.
             map_of (js_grouped xs) d
               = Some (js_group_by prayer (\<lambda>rs. rs) [r \<leftarrow> xs. date r = d])
             \<and> js_order (map prayer [r \<leftarrow> xs. date r = d])
                 (map fst (js_group_by prayer (\<lambda>rs. rs) [r \<leftarrow> xs. date r = d]))
             \<and> (\<forall>p \<in> prayer ` set [r \<leftarrow> xs. date r = d].
                   map_of (js_group_by prayer (\<lambda>rs. rs) [r \<leftarrow> xs. date r = d]) p
                     = Some [r \<leftarrow> xs. date r = d \<and> prayer r = p]))
       \<and> ((\<forall>r \<in> set xs. array_index (date r) = None \<and> array_index (prayer r) = None) \<longrightarrow>
            js_grouped xs = grouped xs)"
proof -
  have s: "summarize eng xs R = (Inr (js_grouped xs), R)"
    using assms(3) by (rule summarize_clean)
  have 1: "get_summary eng e q_date q_className R w = (Inr (js_grouped xs), R, w1)"
    using s assms(1,2) by (simp add: get_summary_eq)
  have 2: "xs = when_given q_className att_className (when_given q_date date (attendance data))"
    if "\<not> visible R ''date''" "\<not> visible R ''className''"
    using that assms(2) by (simp add: chosen_when_given)
  have 3: "js_order (map date xs) (map fst (js_grouped xs))"
    by (simp add: js_grouped_def map_fst_js_group_by js_order_key_order)
  have 4: "map_of (js_grouped xs) d
             = Some (js_group_by prayer (\<lambda>rs. rs) [r \<leftarrow> xs. date r = d])"
    if "d \<in> date ` set xs" for d
    using that by (simp add: js_grouped_def map_of_js_group_by)
  have 5: "js_order (map prayer [r \<leftarrow> xs. date r = d])
             (map fst (js_group_by prayer (\<lambda>rs. rs) [r \<leftarrow> xs. date r = d]))" for d
    by (simp add: map_fst_js_group_by js_order_key_order)
  have 6: "map_of (js_group_by prayer (\<lambda>rs. rs) [r \<leftarrow> xs. date r = d]) p
          = Some [r \<leftarrow> xs. date r = d \<and> prayer r = p]"
    if "p \<in> prayer ` set [r \<leftarrow> xs. date r = d]" for d p
    using that by (simp add: map_of_js_group_by)
  have 7: "js_grouped xs = grouped xs"
    if "\<forall>r \<in> set xs. array_index (date r) = None \<and> array_index (prayer r) = None"
    using that by (rule js_grouped_plain)
  show ?thesis
    using 1 2 3 4 5 6 7 by blast
qed

theorem summary_groups_witness:
  "readData env0 world0 = (doc0, world0)
   \<and> attendance doc0 = [rec1, rec2, rec3]
   \<and> map date [rec1, rec2, rec3] = [''2024-01-01'', ''2024-01-01'', ''2024-01-02'']
   \<and> map prayer [rec1, rec2, rec3] = [''fajr'', ''fajr'', ''dhuhr'']
   \<and> \<not> visible pristine ''2024-01-01'' \<and> \<not> visible pristine ''2024-01-02''
   \<and> \<not> visible pristine ''fajr'' \<and> \<not> visible pristine ''dhuhr''
   \<and> get_summary engine0 env0 None None pristine world0
       = (Inr [(''2024-01-01'', [(''fajr'', [rec1, rec2])]),
               (''2024-01-02'', [(''dhuhr'', [rec3])])], pristine, world0)"
proof -
  have "get_summary engine0 env0 None None pristine world0
          = (Inr (js_grouped [rec1, rec2, rec3]), pristine, world0)"
    using summary_groups [OF readData_world0 example_unfiltered example_clean, of env0]
    by (rule conjunct1)
  then have "get_summary engine0 env0 None None pristine world0
       = (Inr [(''2024-01-01'', [(''fajr'', [rec1, rec2])]),
               (''2024-01-02'', [(''dhuhr'', [rec3])])], pristine, world0)"
    by (simp only: example_js_grouped)
  moreover have "attendance doc0 = [rec1, rec2, rec3]"
    by (simp add: doc0_def)
  ultimately show ?thesis
    using example_keys example_inherited readData_world0 [of env0]
    by (simp add: visible_pristine)
qed

theorem summary_order_counterexample:
  "disk world3 = Stored doc3
   \<and> attendance doc3 = [late, early]
   \<and> map date [late, early] = [''20240102'', ''20240101'']
   \<and> get_summary engine0 env0 None None pristine world3
       = (Inr [(''20240101'', [(''fajr'', [early])]), (''20240102'', [(''fajr'', [late])])],
          pristine, world3)"
proof -
  have r: "readData env0 world3 = (doc3, world3)"
    by (simp add: readData_unfold world3_def)
  have c: "chosen engine0 pristine ''className'' None att_className
             (chosen engine0 pristine ''date'' None date (attendance doc3)) = [late, early]"
    by (simp add: chosen_def query_field_def pristine_def doc3_def)
  have p: "map_of (object_prototype pristine) k = None" for k
    by (simp add: pristine_def)
  have 1: "group_record engine0 late [] pristine
             = (Inr [(''20240102'', [(''fajr'', [late])])], pristine)"
    by (simp add: group_record_def in_group_def order_fields example_index example_inherited p)
  have 2: "group_record engine0 early [(''20240102'', [(''fajr'', [late])])] pristine
             = (Inr [(''20240101'', [(''fajr'', [early])]), (''20240102'', [(''fajr'', [late])])],
                pristine)"
    by (simp add: group_record_def in_group_def order_fields example_index example_inherited p)
  have "summarize engine0 [late, early] pristine
          = (Inr [(''20240101'', [(''fajr'', [early])]), (''20240102'', [(''fajr'', [late])])],
             pristine)"
    by (simp add: summarize_def 1 2)
  then show ?thesis
    using r c by (simp add: get_summary_eq order_fields world3_def doc3_def)
qed

subsection \<open>C6\<close>

text \<open>
  C6 (the source falls short of it). \<^verbatim>\<open>writeData\<close> catches the exception of a failing
  write and returns \<^verbatim>\<open>false\<close>, and no route reads that result: the response, the message
  and its deliveries are the same whether the write succeeds or not
  (\<open>write_result_ignored\<close>). At the document of the
  examples, with two open subscribers, an upsert of class \<^verbatim>\<open>c5\<close> whose write fails is
  answered with the updated class as if it were stored, and its event is delivered to both
  subscribers. When the write fails before the file is opened the file keeps the old
  document; when it fails after, the file is torn and the next request loads the empty
  document. The specification has the failure surfaced, the document unchanged and no
  event emitted.
\<close>
theorem failed_write_reported_as_success:
  "\<not> write_ok env_disk_full \<and> \<not> write_ok env_torn
   \<and> fst (handle_request env_disk_full (PostClass body5) world0)
       = Json (ClassData \<lparr>class_id = ''c5'', class_name = ''Grade 5A'',
                          createdAt = Some ''2024-01-01T08:00:00.000Z'',
                          class_updatedAt = ''2024-01-03T10:00:00.000Z''\<rparr>)
   \<and> delivered (trace (snd (handle_request env_disk_full (PostClass body5) world0)))
       = [(1, ''class_updated/updated''), (3, ''class_updated/updated'')]
   \<and> disk (snd (handle_request env_disk_full (PostClass body5) world0)) = Stored doc0
   \<and> fst (handle_request env_torn (PostClass body5) world0)
       = Json (ClassData \<lparr>class_id = ''c5'', class_name = ''Grade 5A'',
                          createdAt = Some ''2024-01-01T08:00:00.000Z'',
                          class_updatedAt = ''2024-01-03T10:00:00.000Z''\<rparr>)
   \<and> delivered (trace (snd (handle_request env_torn (PostClass body5) world0)))
       = [(1, ''class_updated/updated''), (3, ''class_updated/updated'')]
   \<and> disk (snd (handle_request env_torn (PostClass body5) world0)) = Unreadable
   \<and> fst (readData env0 (snd (handle_request env_torn (PostClass body5) world0)))
       = initialData"
proof -
  have n: "\<not> write_ok env_disk_full" "\<not> write_ok env_torn" "\<not> write_torn env_disk_full"
    "write_torn env_torn"
    by (simp_all add: env_disk_full_def env_torn_def env0_def)
  have b: "truthy (b_id body5)" "truthy (b_name body5)" "str (b_id body5) = ''c5''"
    "str (b_name body5) = ''Grade 5A''"
    by (simp_all add: body5_def)
  have u: "classes (upsertClass e ''c5'' ''Grade 5A'' doc0)
             = [\<lparr>class_id = ''c5'', class_name = ''Grade 5A'',
                  createdAt = Some ''2024-01-01T08:00:00.000Z'',
                  class_updatedAt = now1 e\<rparr>, grade6]" for e
    by (simp add: upsertClass_def doc0_def grade5_def)
  have i: "findIndex (\<lambda>c. class_id c = ''c5'') (classes doc0) = Some 0"
    by (simp add: doc0_def grade5_def)
  have t: "now1 env_disk_full = ''2024-01-03T10:00:00.000Z''"
    "now1 env_torn = ''2024-01-03T10:00:00.000Z''"
    "stringify env_disk_full = tag" "stringify env_torn = tag"
    by (simp_all add: env_disk_full_def env_torn_def env0_def)
  have k: "disk (snd (handle_request env_disk_full (PostClass body5) world0)) = Stored doc0"
    "disk (snd (handle_request env_torn (PostClass body5) world0)) = Unreadable"
    using n by (simp_all add: post_classes_eq [OF b(1) b(2) readData_world0] committed_def
          world0_simps)
  have l: "fst (readData env0 (snd (handle_request env_torn (PostClass body5) world0)))
             = initialData"
    using k(2) by (simp add: readData_unfold)
  show ?thesis
    using n b i k l
    by (simp add: post_classes_eq [OF b(1) b(2) readData_world0] delivered_committed u t
          world0_simps found_def action_of_def is_open_def)
qed

subsection \<open>C8\<close>

text \<open>
  C8. \<^verbatim>\<open>broadcast\<close> calls \<^verbatim>\<open>JSON.stringify\<close> once and then sends that one string to
  every registered client whose \<^verbatim>\<open>readyState\<close> is 1, in the order of registration. A
  client that is not open is skipped, and neither it nor a client unregistered by
  \<^verbatim>\<open>close\<close> before the publish changes what the others receive. \<^verbatim>\<open>broadcast\<close> changes
  neither the registry nor the file, and the response of a request does not depend on the
  registered clients.
\<close>
theorem broadcast_delivers:
  "trace (broadcast e m w) = trace w @ Stringify m # sends (stringify e m) (clients w)
   \<and> serialized (trace (broadcast e m w)) = serialized (trace w) @ [m]
   \<and> delivered (trace (broadcast e m w))
       = delivered (trace w) @ map (\<lambda>c. (handle c, stringify e m)) (filter is_open (clients w))
   \<and> (\<forall>c \<in> set (clients w). is_open c \<longrightarrow>
         (handle c, stringify e m) \<in> set (delivered (trace (broadcast e m w))))
   \<and> (\<not> is_open c' \<longrightarrow>
         delivered (trace (broadcast e m (w\<lparr>clients := xs @ c' # ys\<rparr>)))
           = delivered (trace (broadcast e m (w\<lparr>clients := xs @ ys\<rparr>))))
   \<and> delivered (trace (broadcast e m (on_close h w)))
       = delivered (trace w) @
         map (\<lambda>c. (handle c, stringify e m)) [c \<leftarrow> filter is_open (clients w). handle c \<noteq> h]
   \<and> clients (broadcast e m w) = clients w
   \<and> disk (broadcast e m w) = disk w
   \<and> fst (handle_request e req (w\<lparr>clients := cs\<rparr>)) = fst (handle_request e req w)"
proof -
  have d: "delivered (trace (broadcast e m v))
       = delivered (trace v) @ map (\<lambda>c. (handle c, stringify e m)) (filter is_open (clients v))"
    for v
    by (simp add: broadcast_eq delivered_append delivered_sends)
  have c: "[c \<leftarrow> clients w. handle c \<noteq> h \<and> is_open c]
             = [c \<leftarrow> clients w. is_open c \<and> handle c \<noteq> h]"
    by (rule filter_cong) auto
  have "\<forall>c \<in> set (clients w). is_open c \<longrightarrow>
         (handle c, stringify e m) \<in> set (delivered (trace (broadcast e m w)))"
    by (auto simp: d)
  moreover have "\<not> is_open c' \<longrightarrow>
         delivered (trace (broadcast e m (w\<lparr>clients := xs @ c' # ys\<rparr>)))
           = delivered (trace (broadcast e m (w\<lparr>clients := xs @ ys\<rparr>)))"
    by (simp add: d)
  moreover have "delivered (trace (broadcast e m (on_close h w)))
       = delivered (trace w) @
         map (\<lambda>c. (handle c, stringify e m)) [c \<leftarrow> filter is_open (clients w). handle c \<noteq> h]"
    by (simp add: d on_close_def c)
  ultimately show ?thesis
    using d [of w] response_without_clients [of e req cs w]
    by (simp add: broadcast_eq serialized_append serialized_sends)
qed

theorem broadcast_delivers_witness:
  "closing \<in> set (clients world0) \<and> \<not> is_open closing
   \<and> delivered (trace (broadcast env0 publish_note world0))
       = [(1, ''attendance_updated/created''), (3, ''attendance_updated/created'')]
   \<and> serialized (trace (broadcast env0 publish_note world0)) = [publish_note]"
  using broadcast_delivers [where e = env0 and m = publish_note and w = world0
      and c' = closing and xs = "[]" and ys = "[]" and h = 0 and req = "DeleteClass []"
      and cs = "[]"]
  by (simp add: world0_simps closing_def is_open_def sends_def env0_def publish_note_def)

subsection \<open>C9\<close>

text \<open>
  C9 (amended). \<^verbatim>\<open>broadcast\<close> never changes the registry: a client found not open is
  skipped and stays registered, the open clients receive the payload, and no request
  changes the registry or lets its response depend on it. A handle leaves the registry only
  through the \<^verbatim>\<open>close\<close> event of its socket; the \<^verbatim>\<open>error\<close> event only logs, and a
  new connection only adds.

  The specification lets the publish unregister a handle that is not live; lines 26-33 have
  no such step.
\<close>
theorem broadcast_keeps_registry:
  "clients (broadcast e m w) = clients w
   \<and> clients (snd (handle_request e req w)) = clients w
   \<and> (\<forall>c \<in> set (clients w). \<not> is_open c \<longrightarrow> c \<in> set (clients (broadcast e m w)))
   \<and> delivered (trace (broadcast e m w))
       = delivered (trace w) @ map (\<lambda>c. (handle c, stringify e m)) (filter is_open (clients w))
   \<and> fst (handle_request e req (w\<lparr>clients := cs\<rparr>)) = fst (handle_request e req w)
   \<and> clients (on_close h w) = [c \<leftarrow> clients w. handle c \<noteq> h]
   \<and> clients (on_error h w) = clients w
   \<and> set (clients w) \<subseteq> set (clients (on_connection e ws w))"
proof -
  have "set (clients w) \<subseteq> set (clients (on_connection e ws w))"
    by (auto simp: on_connection_def send_def log_def Let_def)
  then show ?thesis
    using response_without_clients [of e req cs w] clients_handle_request [of e req w]
    by (simp add: broadcast_eq delivered_append delivered_sends on_close_def on_error_def)
qed

theorem broadcast_keeps_registry_witness:
  "closing \<in> set (clients world0) \<and> \<not> is_open closing
   \<and> closing \<in> set (clients (broadcast env0 publish_note world0))
   \<and> delivered (trace (broadcast env0 publish_note world0))
       = [(1, ''attendance_updated/created''), (3, ''attendance_updated/created'')]
   \<and> clients (on_close 2 world0) = [\<lparr>handle = 1, readyState = 1\<rparr>, \<lparr>handle = 3, readyState = 1\<rparr>]"
  using broadcast_keeps_registry [where e = env0 and m = publish_note and w = world0
      and req = "DeleteClass []" and cs = "[]" and h = 2]
  by (simp add: world0_simps closing_def is_open_def env0_def publish_note_def)

theorem broadcast_unregisters_counterexample:
  "closing \<in> set (clients world0) \<and> \<not> is_open closing
   \<and> clients (broadcast env0 publish_note world0) = clients world0
   \<and> closing \<in> set (clients (snd (handle_request env0 (DeleteAttendance ''a1'') world0)))"
  using clients_handle_request [of env0 "DeleteAttendance ''a1''" world0]
  by (simp add: broadcast_eq world0_simps closing_def is_open_def)

subsection \<open>C10\<close>

text \<open>
  C10 (amended). Deleting an id that no entity of the collection has is answered with
  \<^verbatim>\<open>success\<close>, serializes the \<^verbatim>\<open>deleted\<close> event carrying the id and sends it to the
  open clients. For a class and for an attendance record the document handed to
  \<^verbatim>\<open>writeData\<close> is the loaded one. For a student it is the loaded one without the
  attendance records whose \<^verbatim>\<open>studentId\<close> is the id, which is the loaded one only when
  no attendance record refers to the id.

  The specification's sentence has the document unchanged in all three cases; line 225
  filters the attendance whether or not a student was found.
\<close>
theorem delete_absent_id:
  assumes "readData e w = (data, w1)"
  shows "(i \<notin> class_id ` set (classes data) \<longrightarrow>
            fst (handle_request e (DeleteClass i) w) = Success
          \<and> serialized (trace (snd (handle_request e (DeleteClass i) w)))
              = serialized (trace w) @ [Change ''class_deleted'' (IdData i) ''deleted'']
          \<and> delivered (trace (snd (handle_request e (DeleteClass i) w)))
              = delivered (trace w) @
                map (\<lambda>c. (handle c, stringify e (Change ''class_deleted'' (IdData i) ''deleted'')))
                  (filter is_open (clients w))
          \<and> written (trace (snd (handle_request e (DeleteClass i) w)))
              = written (trace w) @ [data])
       \<and> (i \<notin> att_id ` set (attendance data) \<longrightarrow>
            fst (handle_request e (DeleteAttendance i) w) = Success
          \<and> serialized (trace (snd (handle_request e (DeleteAttendance i) w)))
              = serialized (trace w) @ [Change ''attendance_deleted'' (IdData i) ''deleted'']
          \<and> delivered (trace (snd (handle_request e (DeleteAttendance i) w)))
              = delivered (trace w) @
                map (\<lambda>c. (handle c,
                           stringify e (Change ''attendance_deleted'' (IdData i) ''deleted'')))
                  (filter is_open (clients w))
          \<and> written (trace (snd (handle_request e (DeleteAttendance i) w)))
              = written (trace w) @ [data])
       \<and> (i \<notin> student_id ` set (students data) \<longrightarrow>
            fst (handle_request e (DeleteStudent i) w) = Success
          \<and> serialized (trace (snd (handle_request e (DeleteStudent i) w)))
              = serialized (trace w) @ [Change ''student_deleted'' (IdData i) ''deleted'']
          \<and> delivered (trace (snd (handle_request e (DeleteStudent i) w)))
              = delivered (trace w) @
                map (\<lambda>c. (handle c,
                           stringify e (Change ''student_deleted'' (IdData i) ''deleted'')))
                  (filter is_open (clients w))
          \<and> written (trace (snd (handle_request e (DeleteStudent i) w)))
              = written (trace w) @
                [data\<lparr>attendance := [a \<leftarrow> attendance data. studentId a \<noteq> i]\<rparr>]
          \<and> (i \<notin> studentId ` set (attendance data) \<longrightarrow>
                written (trace (snd (handle_request e (DeleteStudent i) w)))
                  = written (trace w) @ [data]))"
proof -
  have cls: "handle_request e (DeleteClass i) w
      = (Success, committed e data (Change ''class_deleted'' (IdData i) ''deleted'') w1)"
    if "i \<notin> class_id ` set (classes data)"
    using assms that by (simp add: delete_classes_eq deleteClass_absent)
  have att: "handle_request e (DeleteAttendance i) w
      = (Success, committed e data (Change ''attendance_deleted'' (IdData i) ''deleted'') w1)"
    if "i \<notin> att_id ` set (attendance data)"
    using assms that by (simp add: delete_attendance_eq deleteAttendance_absent)
  have stu: "handle_request e (DeleteStudent i) w
      = (Success, committed e (data\<lparr>attendance := [a \<leftarrow> attendance data. studentId a \<noteq> i]\<rparr>)
           (Change ''student_deleted'' (IdData i) ''deleted'') w1)"
    if "i \<notin> student_id ` set (students data)"
    using assms that by (simp add: delete_students_eq deleteStudent_absent)
  have stu2: "data\<lparr>attendance := [a \<leftarrow> attendance data. studentId a \<noteq> i]\<rparr> = data"
    if "i \<notin> studentId ` set (attendance data)"
  proof -
    from that have "filter (\<lambda>a. studentId a \<noteq> i) (attendance data) = attendance data"
      by (auto simp: filter_id_conv)
    then show ?thesis by simp
  qed
  show ?thesis
    using deleted_observed [OF assms cls] deleted_observed [OF assms att]
      deleted_observed [OF assms stu] stu2
    by auto
qed

theorem delete_absent_id_witness:
  "readData env0 world0 = (doc0, world0)
   \<and> ''c9'' \<notin> class_id ` set (classes doc0)
   \<and> fst (handle_request env0 (DeleteClass ''c9'') world0) = Success
   \<and> delivered (trace (snd (handle_request env0 (DeleteClass ''c9'') world0)))
       = [(1, ''class_deleted/deleted''), (3, ''class_deleted/deleted'')]
   \<and> written (trace (snd (handle_request env0 (DeleteClass ''c9'') world0))) = [doc0]"
proof -
  have a: "''c9'' \<notin> class_id ` set (classes doc0)"
    by (simp add: doc0_def grade5_def grade6_def)
  from delete_absent_id [OF readData_world0, of "''c9''" env0] a show ?thesis
    by (simp add: readData_world0 world0_simps is_open_def env0_def)
qed

theorem delete_absent_student_counterexample:
  "''s9'' \<notin> set (map student_id (students doc2))
   \<and> disk world2 = Stored doc2
   \<and> attendance doc2 = [rec1, orphan]
   \<and> fst (handle_request env0 (DeleteStudent ''s9'') world2) = Success
   \<and> disk (snd (handle_request env0 (DeleteStudent ''s9'') world2))
       = Stored (doc2\<lparr>attendance := [rec1]\<rparr>)"
proof -
  have r: "readData env0 world2 = (doc2, world2)"
    by (simp add: readData_unfold world2_def)
  have d: "deleteStudent ''s9'' doc2 = doc2\<lparr>attendance := [rec1]\<rparr>"
    by (simp add: deleteStudent_def doc2_def ali_def rec1_def orphan_def)
  have h: "handle_request env0 (DeleteStudent ''s9'') world2
             = (Success, committed env0 (doc2\<lparr>attendance := [rec1]\<rparr>)
                  (Change ''student_deleted'' (IdData ''s9'') ''deleted'') world2)"
    using d by (simp add: delete_students_eq [OF r])
  have a: "''s9'' \<notin> set (map student_id (students doc2))"
    "disk world2 = Stored doc2" "attendance doc2 = [rec1, orphan]"
    by (simp_all add: doc2_def ali_def world2_def)
  show ?thesis
    unfolding h using a by (simp add: committed_def env0_def)
qed

end
